theory Spec2Isabelle
  imports Main "HOL-Library.Word"
begin

unbundle bit_operations_syntax

section \<open>MobiParse.cpp: outcomes of a call\<close>

text \<open>
  The functions of \<^verbatim>\<open>MobiParse.cpp\<close> signal every error by returning \<^verbatim>\<open>false\<close>,
  \<^verbatim>\<open>NULL\<close> or \<^verbatim>\<open>(size_t)-1\<close>. The model keeps one tag per failing return site, so
  that a theorem can say which check rejected the input; the tag is named after the log
  message or the comment at that site.

  The model is the release build: \<^verbatim>\<open>assert\<close> expands to nothing (the source itself
  repeats several assertions as an \<^verbatim>\<open>if\<close> with an error return right after them,
  which only matters when the assertion is compiled out). Each assertion of the source is
  recalled in a comment at its place.

  A memory access outside the object it is meant for (a record buffer, the output buffer,
  the table of record headers) has no behaviour determined by the function's inputs; the
  model stops there with \<open>Fault\<close>, which is neither a success nor an error return.
\<close>

type_synonym u8 = "8 word"
type_synonym u16 = "16 word"
type_synonym u32 = "32 word"

text \<open>\<^verbatim>\<open>size_t\<close> of the 32-bit Windows build; \<^verbatim>\<open>DWORD\<close> is 32 bits on every build.\<close>

type_synonym size_t = "32 word"

datatype failure =
    OutputBufferTooSmall    \<comment> \<open>\<^verbatim>\<open>PalmdocUncompress\<close>: \<^verbatim>\<open>return -1\<close>\<close>
  | PdbHeaderRead           \<comment> \<open>short read of the PDB header\<close>
  | UnknownPdbType          \<comment> \<open>"unknown pdb type/creator"\<close>
  | NumRecordsInvalid       \<comment> \<open>\<^verbatim>\<open>numRecords < 1\<close>\<close>
  | RecHeadersRead          \<comment> \<open>short read of the record headers\<close>
  | InvalidOffsetField      \<comment> \<open>"invalid offset field"\<close>
  | SeekFailed              \<comment> \<open>\<^verbatim>\<open>INVALID_SET_FILE_POINTER\<close>\<close>
  | ShortRead               \<comment> \<open>\<^verbatim>\<open>toRead != bytesRead\<close> in \<^verbatim>\<open>ReadRecord\<close>\<close>
  | UnknownCompression      \<comment> \<open>"unknown compression type"\<close>
  | EncryptionUnsupported   \<comment> \<open>"encryption is unsupported"\<close>
  | MobiHeaderTooShort      \<comment> \<open>\<^verbatim>\<open>recLeft < 8\<close>\<close>
  | MobiIdMismatch          \<comment> \<open>"MobiHeader.id is not 'MOBI'"\<close>
  | MobiHeaderTooBig        \<comment> \<open>"MobiHeader too big"\<close>
  | HuffDataTooShort        \<comment> \<open>\<^verbatim>\<open>huffDataLen < kHuffHeaderLen\<close>\<close>
  | HuffIdMismatch          \<comment> \<open>id is not "HUFF"\<close>
  | HuffHdrLenInvalid       \<comment> \<open>\<^verbatim>\<open>hdrLen != kHuffHeaderLen\<close>\<close>
  | HuffTableOffsetsInvalid \<comment> \<open>\<^verbatim>\<open>baseTableOffset != cacheOffset + 1024\<close>\<close>
  | HuffBaseTableOutside    \<comment> \<open>\<^verbatim>\<open>baseTableOffset >= huffDataLen\<close>\<close>
  | CdicRejected            \<comment> \<open>\<^verbatim>\<open>AddCdicData\<close> returned false\<close>
  | HuffNotImplemented      \<comment> \<open>"TODO: implement me" in \<^verbatim>\<open>LoadDocRecordIntoBuffer\<close>\<close>
  | NoDecompressor          \<comment> \<open>\<^verbatim>\<open>assert(0); return false;\<close> in \<^verbatim>\<open>LoadDocRecordIntoBuffer\<close>\<close>

datatype fault =
    ReadOutsideSrc          \<comment> \<open>\<^verbatim>\<open>*src++\<close> outside the source bytes\<close>
  | WritePastDst            \<comment> \<open>\<^verbatim>\<open>*dst++ = ...\<close> at or after \<^verbatim>\<open>dstEnd\<close>\<close>
  | ReadBeforeDst           \<comment> \<open>\<^verbatim>\<open>*dstBack\<close> before \<^verbatim>\<open>dstOrig\<close>\<close>
  | ReadUnwrittenDst        \<comment> \<open>\<^verbatim>\<open>*dstBack\<close> at a byte of the output buffer not written yet\<close>
  | ReadOutsideRecord       \<comment> \<open>a read outside the bytes of the record\<close>
  | TableOverread           \<comment> \<open>\<^verbatim>\<open>recHeaders[i]\<close> outside the allocated table\<close>

datatype 'a result = Ok 'a | Failed failure | Fault fault

section \<open>PalmdocUncompress\<close>

text \<open>
  \<^verbatim>\<open>static size_t PalmdocUncompress(uint8_t *src, size_t srcLen, uint8_t *dst, size_t dstLen)\<close>

  \<open>src\<close> is the memory \<^verbatim>\<open>src\<close> points to (the bytes really there) and \<open>srcLen\<close> the
  length the caller declares. The output buffer is write-only for the caller: the model
  keeps \<open>out\<close>, the bytes written so far (\<^verbatim>\<open>dst - dstOrig = length out\<close>), and \<open>dstLen\<close>.
\<close>

text \<open>\<^verbatim>\<open>while (c > 0) { *dst++ = *src++; --c; }\<close>, with \<open>i\<close> the index of \<^verbatim>\<open>src\<close>.\<close>

fun copy_raw :: "u8 list \<Rightarrow> nat \<Rightarrow> nat \<Rightarrow> u8 list \<Rightarrow> nat \<Rightarrow> u8 list result" where
  "copy_raw src i dstLen out 0 = Ok out"
| "copy_raw src i dstLen out (Suc c) =
     (if length src \<le> i then Fault ReadOutsideSrc
      else if dstLen \<le> length out then Fault WritePastDst
      else copy_raw src (Suc i) dstLen (out @ [src ! i]) c)"

text \<open>
  \<^verbatim>\<open>while (n > 0) { *dst++ = *dstBack++; --n; }\<close> with \<^verbatim>\<open>dstBack = dst - back\<close>: both
  pointers advance together, so the byte read is always \<open>back\<close> bytes before the byte
  written.
\<close>

fun copy_back :: "nat \<Rightarrow> nat \<Rightarrow> u8 list \<Rightarrow> nat \<Rightarrow> u8 list result" where
  "copy_back back dstLen out 0 = Ok out"
| "copy_back back dstLen out (Suc n) =
     (if length out < back then Fault ReadBeforeDst
      else if back = 0 then Fault ReadUnwrittenDst
      else if dstLen \<le> length out then Fault WritePastDst
      else copy_back back dstLen (out @ [out ! (length out - back)]) n)"

function PalmdocUncompress_loop :: "u8 list \<Rightarrow> nat \<Rightarrow> nat \<Rightarrow> nat \<Rightarrow> u8 list \<Rightarrow> u8 list result" where
  "PalmdocUncompress_loop src srcLen dstLen i out =
     (if i < srcLen then
        let dstLeft = dstLen - length out in
        \<comment> \<open>\<^verbatim>\<open>assert(dstLeft > 0)\<close>\<close>
        if dstLeft = 0 then Failed OutputBufferTooSmall
        else if length src \<le> i then Fault ReadOutsideSrc
        else
          let c = (ucast (src ! i) :: u32) in
          if 1 \<le> c \<and> c \<le> 8 then
            \<comment> \<open>\<^verbatim>\<open>assert(dstLeft >= c)\<close>\<close>
            if dstLeft < unat c then Failed OutputBufferTooSmall
            else (case copy_raw src (i + 1) dstLen out (unat c) of
                    Ok out' \<Rightarrow> PalmdocUncompress_loop src srcLen dstLen (i + 1 + unat c) out'
                  | Failed f \<Rightarrow> Failed f
                  | Fault x \<Rightarrow> Fault x)
          else if c < 128 then
            \<comment> \<open>\<^verbatim>\<open>assert(c != 0)\<close>\<close>
            PalmdocUncompress_loop src srcLen dstLen (i + 1) (out @ [ucast c])
          else if 192 \<le> c then
            \<comment> \<open>\<^verbatim>\<open>assert(dstLeft >= 2)\<close>\<close>
            if dstLeft < 2 then Failed OutputBufferTooSmall
            else PalmdocUncompress_loop src srcLen dstLen (i + 1) (out @ [0x20, ucast (c XOR 0x80)])
          else
            \<comment> \<open>\<^verbatim>\<open>assert((c >= 128) && (c < 192)); assert(src < srcEnd)\<close>\<close>
            if i + 1 < srcLen then
              if length src \<le> i + 1 then Fault ReadOutsideSrc
              else
                let c' = push_bit 8 c OR ucast (src ! (i + 1));
                    back = unat (drop_bit 3 c' AND 0x07ff);
                    n = unat ((c' AND 7) + 3)
                in
                \<comment> \<open>\<^verbatim>\<open>assert(dstBack >= dstOrig); assert(dstLeft >= n)\<close>\<close>
                (case copy_back back dstLen out n of
                   Ok out' \<Rightarrow> PalmdocUncompress_loop src srcLen dstLen (i + 2) out'
                 | Failed f \<Rightarrow> Failed f
                 | Fault x \<Rightarrow> Fault x)
            else PalmdocUncompress_loop src srcLen dstLen (i + 1) out
      else
        \<comment> \<open>\<^verbatim>\<open>if (dst < dstEnd) *dst = 0;\<close> writes after the last output byte, inside the
            buffer; \<^verbatim>\<open>return dst - dstOrig\<close> is \<open>length out\<close>\<close>
        Ok out)"
  by pat_completeness auto
termination
  by (relation "measure (\<lambda>(src, srcLen, dstLen, i, out). srcLen - i)") auto

definition PalmdocUncompress :: "u8 list \<Rightarrow> nat \<Rightarrow> nat \<Rightarrow> u8 list result" where
  "PalmdocUncompress src srcLen dstLen = PalmdocUncompress_loop src srcLen dstLen 0 []"


section \<open>Reading fields\<close>

text \<open>
  The file stores every multi-byte field big-endian. \<^verbatim>\<open>SwapI16\<close>, \<^verbatim>\<open>SwapU16\<close>,
  \<^verbatim>\<open>SwapI32\<close> and \<^verbatim>\<open>SwapU32\<close> replace a field by its value in host order
  ("change big-endian ... to little-endian (our native format)"), and the code reads the
  field afterwards: together that is a big-endian read of the field's bytes. A field the
  code reads without swapping it is a little-endian read.
\<close>

definition be16 :: "u8 list \<Rightarrow> nat \<Rightarrow> u16" where
  "be16 m off = push_bit 8 (ucast (m ! off)) OR ucast (m ! (off + 1))"

definition le16 :: "u8 list \<Rightarrow> nat \<Rightarrow> u16" where
  "le16 m off = push_bit 8 (ucast (m ! (off + 1))) OR ucast (m ! off)"

definition be32 :: "u8 list \<Rightarrow> nat \<Rightarrow> u32" where
  "be32 m off = push_bit 24 (ucast (m ! off)) OR push_bit 16 (ucast (m ! (off + 1))) OR
                push_bit 8 (ucast (m ! (off + 2))) OR ucast (m ! (off + 3))"

text \<open>The bytes of memory \<open>m\<close> after \<^verbatim>\<open>SwapU32\<close> of the field at \<open>off\<close>, done in place.\<close>

definition SwapU32_at :: "u8 list \<Rightarrow> nat \<Rightarrow> u8 list" where
  "SwapU32_at m off = take off m @ rev (take 4 (drop off m)) @ drop (off + 4) m"

section \<open>ExtraDataSize\<close>

text \<open>
  \<^verbatim>\<open>static size_t ExtraDataSize(uint8_t *recData, size_t recLen, size_t trailersCount, bool multibyte)\<close>

  \<open>recData\<close> is the record as read; an index outside it is a \<open>Fault\<close>. The index
  \<^verbatim>\<open>newLen - 4 + j\<close> and the subtractions \<^verbatim>\<open>newLen -= n\<close> are \<^verbatim>\<open>size_t\<close> arithmetic
  and wrap around.
\<close>

text \<open>The inner loop \<^verbatim>\<open>for (size_t j = 0; j < 4; j++)\<close>, over the list of the \<open>j\<close> left.\<close>

fun ExtraDataSize_n :: "u8 list \<Rightarrow> size_t \<Rightarrow> nat list \<Rightarrow> u32 \<Rightarrow> u32 result" where
  "ExtraDataSize_n recData newLen [] n = Ok n"
| "ExtraDataSize_n recData newLen (j # js) n =
     (let idx = unat (newLen - 4 + of_nat j) in
      if length recData \<le> idx then Fault ReadOutsideRecord
      else
        let v = recData ! idx;
            n1 = (if v AND 0x80 \<noteq> 0 then 0 else n)
        in ExtraDataSize_n recData newLen js (push_bit 7 n1 OR ucast (v AND 0x7f)))"

text \<open>The outer loop \<^verbatim>\<open>for (size_t i = 0; i < trailersCount; i++)\<close>, over the number of rounds left.\<close>

fun ExtraDataSize_trailers :: "u8 list \<Rightarrow> nat \<Rightarrow> size_t \<Rightarrow> size_t result" where
  "ExtraDataSize_trailers recData 0 newLen = Ok newLen"
| "ExtraDataSize_trailers recData (Suc k) newLen =
     \<comment> \<open>\<^verbatim>\<open>assert(newLen > 4)\<close>\<close>
     (case ExtraDataSize_n recData newLen [0, 1, 2, 3] 0 of
        Ok n \<Rightarrow>
          \<comment> \<open>\<^verbatim>\<open>assert(newLen > n)\<close>\<close>
          ExtraDataSize_trailers recData k (newLen - n)
      | Failed f \<Rightarrow> Failed f
      | Fault x \<Rightarrow> Fault x)"

definition ExtraDataSize :: "u8 list \<Rightarrow> size_t \<Rightarrow> size_t \<Rightarrow> bool \<Rightarrow> size_t result" where
  "ExtraDataSize recData recLen trailersCount multibyte =
     (case ExtraDataSize_trailers recData (unat trailersCount) recLen of
        Ok newLen \<Rightarrow>
          if multibyte then
            \<comment> \<open>\<^verbatim>\<open>assert(newLen > 0)\<close>\<close>
            if 0 < newLen then
              if length recData \<le> unat (newLen - 1) then Fault ReadOutsideRecord
              else
                let n = (recData ! unat (newLen - 1) AND 3) + 1 in
                \<comment> \<open>\<^verbatim>\<open>assert(newLen >= n)\<close>\<close>
                Ok (recLen - (newLen - ucast n))
            else Ok (recLen - newLen)
          else Ok (recLen - newLen)
      | Failed f \<Rightarrow> Failed f
      | Fault x \<Rightarrow> Fault x)"

section \<open>HuffDicDecompressor\<close>

record Dict1Entry =
  codeLen :: u32
  term' :: u32
  maxCode :: u32

text \<open>
  The members the code writes: \<^verbatim>\<open>huffmanData\<close> and \<^verbatim>\<open>baseTable\<close> (\<^verbatim>\<open>NULL\<close> is
  \<open>None\<close>; \<^verbatim>\<open>baseTable\<close> is kept as its offset inside \<^verbatim>\<open>huffmanData\<close>),
  \<^verbatim>\<open>baseTableLen\<close> and \<^verbatim>\<open>dict1\<close>. The constructor sets the two pointers and leaves
  \<^verbatim>\<open>baseTableLen\<close> and \<^verbatim>\<open>dict1\<close> as they are; the model starts them at zero (no
  function reads them before writing them). \<^verbatim>\<open>minCode\<close>, \<^verbatim>\<open>maxCode\<close> and
  \<^verbatim>\<open>dictionary\<close> are never accessed.
\<close>

record HuffDicDecompressor =
  huffmanData :: "u8 list option"
  baseTable :: "nat option"
  baseTableLen :: size_t
  dict1 :: "Dict1Entry list"

definition HuffDicDecompressor_new :: HuffDicDecompressor where
  "HuffDicDecompressor_new =
     \<lparr>huffmanData = None, baseTable = None, baseTableLen = 0,
      dict1 = replicate 256 \<lparr>codeLen = 0, term' = 0, maxCode = 0\<rparr>\<rparr>"

text \<open>
  \<^verbatim>\<open>for (size_t i = 0; i < 256; i++)\<close> of \<^verbatim>\<open>UnpackCacheData\<close>: \<open>mem\<close> is the memory
  \<^verbatim>\<open>huffmanData\<close>, \<open>cache\<close> the offset of \<^verbatim>\<open>cache\<close> in it, the third argument \<open>i\<close> and
  the fourth the number of rounds left.
\<close>

fun UnpackCacheData_loop ::
  "u8 list \<Rightarrow> nat \<Rightarrow> nat \<Rightarrow> nat \<Rightarrow> Dict1Entry list \<Rightarrow> (bool \<times> Dict1Entry list) result" where
  "UnpackCacheData_loop mem cache i 0 d = Ok (True, d)"
| "UnpackCacheData_loop mem cache i (Suc k) d =
     (if length mem < cache + 4 * i + 4 then Fault ReadOutsideRecord
      else
        let v = be32 mem (cache + 4 * i);
            d1 = d[i := (d ! i)\<lparr>codeLen := v AND 0x1f\<rparr>]
        in
        if codeLen (d1 ! i) = 0 then Ok (False, d1)
        else
          let d2 = d1[i := (d1 ! i)\<lparr>term' := v AND 0x80\<rparr>] in
          if codeLen (d2 ! i) \<le> 8 \<and> term' (d2 ! i) = 0 then Ok (False, d2)
          else
            let maxCode0 = drop_bit 8 v;
                maxCode1 = push_bit (32 - unat (codeLen (d2 ! i))) (maxCode0 + 1) - 1;
                d3 = d2[i := (d2 ! i)\<lparr>maxCode := maxCode1\<rparr>]
            in UnpackCacheData_loop mem cache (Suc i) k d3)"

definition UnpackCacheData :: "u8 list \<Rightarrow> nat \<Rightarrow> Dict1Entry list \<Rightarrow> (bool \<times> Dict1Entry list) result" where
  "UnpackCacheData mem cache d = UnpackCacheData_loop mem cache 0 256 d"

definition HUFF_id :: "u8 list" where
  "HUFF_id = [0x48, 0x55, 0x46, 0x46]"

text \<open>
  \<^verbatim>\<open>bool HuffDicDecompressor::SetHuffData(uint8_t *huffData, size_t huffDataLen)\<close>, with
  \<open>huffDataLen = length huffData\<close>. The three header fields are swapped in place before
  \<^verbatim>\<open>memdup\<close>, so \<^verbatim>\<open>huffmanData\<close> holds the swapped bytes. \<^verbatim>\<open>memdup\<close> is taken to
  succeed. The value \<^verbatim>\<open>UnpackCacheData\<close> returns is not used by the source.
\<close>

definition SetHuffData :: "HuffDicDecompressor \<Rightarrow> u8 list \<Rightarrow> HuffDicDecompressor result" where
  "SetHuffData h huffData =
     \<comment> \<open>\<^verbatim>\<open>assert(huffDataLen > kHuffHeaderLen)\<close>\<close>
     (if length huffData < 24 then Failed HuffDataTooShort
      else
        let hdrLen = be32 huffData 4;
            cacheOffset = be32 huffData 8;
            baseTableOffset = be32 huffData 12;
            swapped = SwapU32_at (SwapU32_at (SwapU32_at huffData 4) 8) 12
        in
        if take 4 huffData \<noteq> HUFF_id then Failed HuffIdMismatch
        \<comment> \<open>\<^verbatim>\<open>assert(huffHdr->hdrLen == kHuffHeaderLen)\<close>\<close>
        else if hdrLen \<noteq> 24 then Failed HuffHdrLenInvalid
        else if baseTableOffset \<noteq> cacheOffset + 1024 then Failed HuffTableOffsetsInvalid
        else if length huffData \<le> unat baseTableOffset then Failed HuffBaseTableOutside
        else
          \<comment> \<open>\<^verbatim>\<open>assert(NULL == huffmanData)\<close>\<close>
          (case UnpackCacheData swapped (unat cacheOffset) (dict1 h) of
             Ok (unused, d) \<Rightarrow>
               Ok (h\<lparr>huffmanData := Some swapped, dict1 := d,
                      baseTable := Some (unat baseTableOffset),
                      baseTableLen := word_of_nat (length huffData) - baseTableOffset\<rparr>)
           | Failed f \<Rightarrow> Failed f
           | Fault x \<Rightarrow> Fault x))"

definition AddCdicData :: "HuffDicDecompressor \<Rightarrow> u8 list \<Rightarrow> bool" where
  "AddCdicData h cdicData = False"


section \<open>MobiParse\<close>

text \<open>
  \<^verbatim>\<open>MobiParse.h\<close> is not part of the sources at hand. What \<^verbatim>\<open>MobiParse.cpp\<close> uses of
  it is taken as follows.

  \<^item> The layout of \<^verbatim>\<open>PdbHeader\<close> and \<^verbatim>\<open>PdbRecordHeader\<close> is a parameter \<open>L\<close> of the
    model: \<^verbatim>\<open>kPdbHeaderLen\<close>, the offsets of \<^verbatim>\<open>PdbHeader.type\<close> (eight bytes, type and
    creator) and of \<^verbatim>\<open>PdbHeader.numRecords\<close>, \<^verbatim>\<open>kPdbRecordHeaderLen\<close> and the offset of
    \<^verbatim>\<open>PdbRecordHeader.offset\<close>. \<open>pdb_std\<close> is the layout of a Palm database, used for
    the concrete files below.
  \<^item> \<^verbatim>\<open>numRecords\<close> is an \<^verbatim>\<open>int16_t\<close> and \<^verbatim>\<open>offset\<close> an \<^verbatim>\<open>int32_t\<close>: the source
    passes them to \<^verbatim>\<open>SwapI16(int16_t&)\<close> and \<^verbatim>\<open>SwapI32(int32_t&)\<close>.
  \<^item> The members of \<^verbatim>\<open>MobiParse\<close> are the ones the constructor initialises;
    \<^verbatim>\<open>docRecCount\<close>, \<^verbatim>\<open>docUncompressedSize\<close> and \<^verbatim>\<open>trailersCount\<close> are \<^verbatim>\<open>size_t\<close>,
    \<^verbatim>\<open>compressionType\<close> is an \<^verbatim>\<open>int\<close>, \<^verbatim>\<open>doc\<close> is the \<^verbatim>\<open>str::Str<char>\<close> of the
    document. \<^verbatim>\<open>fileName\<close> and \<^verbatim>\<open>fileHandle\<close> are \<open>fileData\<close>, the bytes of the file.
    \<^verbatim>\<open>recHeaders\<close> keeps the \<^verbatim>\<open>offset\<close> of each entry, the only field the code reads.
    \<^verbatim>\<open>firstRecData\<close> and the record buffers are local to the functions of the model.

  The file system is taken to work: \<^verbatim>\<open>file::GetSize\<close> returns the size of the file as
  a \<^verbatim>\<open>size_t\<close> (the size itself for a file of fewer than \<open>2 ^ 32\<close> bytes), \<^verbatim>\<open>ReadFile\<close>
  returns the bytes between the file pointer and the end of the file, at most as many as
  asked, \<^verbatim>\<open>SetFilePointer\<close> with \<^verbatim>\<open>FILE_BEGIN\<close> fails exactly on a negative 32-bit
  distance, and \<^verbatim>\<open>malloc\<close> and \<^verbatim>\<open>memdup\<close> succeed.
\<close>

record pdb_layout =
  kPdbHeaderLen :: nat
  type_off :: nat
  numRecords_off :: nat
  kPdbRecordHeaderLen :: nat
  offset_off :: nat

definition pdb_std :: pdb_layout where
  "pdb_std = \<lparr>kPdbHeaderLen = 78, type_off = 60, numRecords_off = 76,
              kPdbRecordHeaderLen = 8, offset_off = 0\<rparr>"

definition PALMDOC_TYPE_CREATOR :: "u8 list" where
  "PALMDOC_TYPE_CREATOR = [0x54, 0x45, 0x58, 0x74, 0x52, 0x45, 0x41, 0x64]"

definition MOBI_TYPE_CREATOR :: "u8 list" where
  "MOBI_TYPE_CREATOR = [0x42, 0x4F, 0x4F, 0x4B, 0x4D, 0x4F, 0x42, 0x49]"

definition MOBI_id :: "u8 list" where
  "MOBI_id = [0x4D, 0x4F, 0x42, 0x49]"

definition COMPRESSION_NONE :: int where [simp]: "COMPRESSION_NONE = 1"
definition COMPRESSION_PALM :: int where [simp]: "COMPRESSION_PALM = 2"
definition COMPRESSION_HUFF :: int where [simp]: "COMPRESSION_HUFF = 17480"

definition ENCRYPTION_NONE :: u16 where [simp]: "ENCRYPTION_NONE = 0"

record MobiParse =
  fileData :: "u8 list"
  numRecords :: u16
  recHeaders :: "u32 list"
  isMobi :: bool
  docRecCount :: size_t
  compressionType :: int
  docUncompressedSize :: size_t
  multibyte :: bool
  trailersCount :: size_t
  doc :: "u8 list"
  huffDic :: "HuffDicDecompressor option"

definition MobiParse_new :: "u8 list \<Rightarrow> MobiParse" where
  "MobiParse_new f =
     \<lparr>fileData = f, numRecords = 0, recHeaders = [], isMobi = False, docRecCount = 0,
      compressionType = 0, docUncompressedSize = 0, multibyte = False, trailersCount = 0,
      doc = [], huffDic = None\<rparr>"

definition IsValidCompression :: "int \<Rightarrow> bool" where
  "IsValidCompression comprType \<longleftrightarrow>
     COMPRESSION_NONE = comprType \<or> COMPRESSION_PALM = comprType \<or> COMPRESSION_HUFF = comprType"

text \<open>\<^verbatim>\<open>ReadFile\<close> of \<open>len\<close> bytes with the file pointer at \<open>pos\<close>: the bytes read.\<close>

definition ReadFile :: "u8 list \<Rightarrow> nat \<Rightarrow> nat \<Rightarrow> u8 list" where
  "ReadFile f pos len = take len (drop pos f)"

text \<open>
  The loop "validate offsets" of \<^verbatim>\<open>ParseHeader\<close>, over the table with its sentinel:
  \<^verbatim>\<open>recHeaders[i + 1].offset < recHeaders[i].offset\<close> compares two \<^verbatim>\<open>int32_t\<close>.
\<close>

fun offsets_valid :: "u32 list \<Rightarrow> bool" where
  "offsets_valid (a # b # xs) = (if b <s a then False else offsets_valid (b # xs))"
| "offsets_valid xs = True"

text \<open>
  \<^verbatim>\<open>MobiParse::ParseHeader\<close>, first part: from the beginning to the end of the loop
  "validate offsets" (the container: PDB header and table of record offsets).
\<close>

definition ParseHeader_pdb :: "pdb_layout \<Rightarrow> u8 list \<Rightarrow> MobiParse result" where
  "ParseHeader_pdb L f =
     (let pdbHeader = ReadFile f 0 (kPdbHeaderLen L) in
      if length pdbHeader \<noteq> kPdbHeaderLen L then Failed PdbHeaderRead
      else
        let ty = take 8 (drop (type_off L) pdbHeader) in
        if ty \<noteq> MOBI_TYPE_CREATOR \<and> ty \<noteq> PALMDOC_TYPE_CREATOR then Failed UnknownPdbType
        else
          let n = be16 pdbHeader (numRecords_off L) in
          if sint n < 1 then Failed NumRecordsInvalid
          else
            let toRead = kPdbRecordHeaderLen L * nat (sint n);
                recs = ReadFile f (kPdbHeaderLen L) toRead
            in
            if length recs \<noteq> toRead then Failed RecHeadersRead
            else
              let offs = map (\<lambda>i. be32 recs (kPdbRecordHeaderLen L * i + offset_off L))
                             [0..<nat (sint n)];
                  fileSize = (word_of_nat (length f) :: u32);
                  tbl = offs @ [fileSize]
              in
              if \<not> offsets_valid tbl then Failed InvalidOffsetField
              else Ok ((MobiParse_new f)\<lparr>isMobi := (ty = MOBI_TYPE_CREATOR),
                                           numRecords := n, recHeaders := tbl\<rparr>))"

text \<open>
  \<^verbatim>\<open>GetRecordSize\<close>: the difference of two \<^verbatim>\<open>int32_t\<close>, converted to \<^verbatim>\<open>size_t\<close>. The
  caller has made sure that both entries are inside the table.
\<close>

definition GetRecordSize :: "MobiParse \<Rightarrow> nat \<Rightarrow> size_t" where
  "GetRecordSize st recNo = recHeaders st ! (recNo + 1) - recHeaders st ! recNo"

text \<open>
  \<^verbatim>\<open>char* MobiParse::ReadRecord(size_t recNo, size_t& sizeOut)\<close>: the bytes of the record;
  \<^verbatim>\<open>sizeOut\<close> is their number. The source does not compare \<open>recNo\<close> with the number of
  records: an entry outside the table is a \<open>Fault\<close>.
\<close>

definition ReadRecord :: "MobiParse \<Rightarrow> nat \<Rightarrow> u8 list result" where
  "ReadRecord st recNo =
     (if length (recHeaders st) \<le> recNo + 1 then Fault TableOverread
      else
        let off = recHeaders st ! recNo;
            toRead = GetRecordSize st recNo
        in
        if sint off < 0 then Failed SeekFailed
        else
          let buf = ReadFile (fileData st) (nat (sint off)) (unat toRead) in
          if length buf \<noteq> unat toRead then Failed ShortRead
          else Ok buf)"


text \<open>
  The loop of \<^verbatim>\<open>ParseHeader\<close> over \<^verbatim>\<open>extraDataFlags\<close>:
  \<^verbatim>\<open>while (flags > 1) { if (0 != (flags & 2)) trailersCount++; flags = flags >> 1; }\<close>
\<close>

function count_trailers :: "u16 \<Rightarrow> size_t \<Rightarrow> size_t" where
  "count_trailers flags cnt =
     (if 1 < flags then count_trailers (drop_bit 1 flags) (if flags AND 2 \<noteq> 0 then cnt + 1 else cnt)
      else cnt)"
  by pat_completeness auto
termination
  by (relation "measure (\<lambda>(flags, cnt). unat flags)")
     (auto simp add: unat_drop_bit_eq drop_bit_eq_div unat_div word_less_nat_alt)

text \<open>
  The loop of \<^verbatim>\<open>ParseHeader\<close> over the dictionary records after the first:
  \<^verbatim>\<open>for (size_t i = 1; i < mobiHdr->huffmanRecCount; i++)\<close>. The record number
  \<^verbatim>\<open>mobiHdr->huffmanFirstRec + i\<close> is computed in 32 bits.
\<close>

function ParseHeader_cdic :: "MobiParse \<Rightarrow> HuffDicDecompressor \<Rightarrow> u32 \<Rightarrow> u32 \<Rightarrow> nat \<Rightarrow> unit result" where
  "ParseHeader_cdic st h huffmanFirstRec huffmanRecCount i =
     (if i < unat huffmanRecCount then
        (case ReadRecord st (unat (huffmanFirstRec + word_of_nat i)) of
           Ok recData \<Rightarrow>
             if \<not> AddCdicData h recData then Failed CdicRejected
             else ParseHeader_cdic st h huffmanFirstRec huffmanRecCount (i + 1)
         | Failed f \<Rightarrow> Failed f
         | Fault x \<Rightarrow> Fault x)
      else Ok ())"
  by pat_completeness auto
termination
  by (relation "measure (\<lambda>(st, h, first, cnt, i). unat cnt - i)") auto

text \<open>
  \<^verbatim>\<open>MobiParse::ParseHeader\<close>, second part: from \<^verbatim>\<open>ReadRecord(0, recLeft)\<close> on, with
  \<open>buf\<close> the bytes of record 0 (\<^verbatim>\<open>firstRecData\<close> is a copy of them and
  \<open>recLeft = length buf\<close>). Offsets in \<^verbatim>\<open>PalmDocHeader\<close>: \<^verbatim>\<open>compressionType\<close> 0,
  \<^verbatim>\<open>uncompressedDocSize\<close> 4, \<^verbatim>\<open>recordsCount\<close> 8, \<^verbatim>\<open>mobi.encrType\<close> 12; the
  \<^verbatim>\<open>MobiHeader\<close> starts at 16: \<^verbatim>\<open>id\<close> 0, \<^verbatim>\<open>hdrLen\<close> 4, \<^verbatim>\<open>huffmanFirstRec\<close> 96,
  \<^verbatim>\<open>huffmanRecCount\<close> 100, \<^verbatim>\<open>exhtFlags\<close> 112 (the last field swapped before
  \<^verbatim>\<open>hdrLen\<close> is compared with \<^verbatim>\<open>recLeft\<close>), \<^verbatim>\<open>extraDataFlags\<close> 226. A field outside
  the bytes of the record is a \<open>Fault\<close>.
\<close>

definition ParseHeader_doc :: "MobiParse \<Rightarrow> u8 list \<Rightarrow> MobiParse result" where
  "ParseHeader_doc st buf =
     \<comment> \<open>\<^verbatim>\<open>SwapI16(compressionType); SwapI32(uncompressedDocSize); SwapI16(recordsCount)\<close>\<close>
     (if length buf < 10 then Fault ReadOutsideRecord
      else
        let comprType = sint (be16 buf 0);
            uncompressedDocSize = be32 buf 4;
            recordsCount = be16 buf 8
        in
        if \<not> IsValidCompression comprType then Failed UnknownCompression
        else if isMobi st \<and> length buf < 14 then Fault ReadOutsideRecord
        else if isMobi st \<and> le16 buf 12 \<noteq> ENCRYPTION_NONE then Failed EncryptionUnsupported
        else
          let st1 = st\<lparr>docRecCount := scast recordsCount,
                       docUncompressedSize := uncompressedDocSize,
                       compressionType := comprType\<rparr>;
              recLeft = (word_of_nat (length buf) :: size_t) - 16
          in
          \<comment> \<open>\<^verbatim>\<open>assert(!isMobi)\<close>\<close>
          if recLeft = 0 then Ok st1
          else if recLeft < 8 then Failed MobiHeaderTooShort
          else if length buf < 20 then Fault ReadOutsideRecord
          else if take 4 (drop 16 buf) \<noteq> MOBI_id then Failed MobiIdMismatch
          \<comment> \<open>\<^verbatim>\<open>SwapU32(mobiHdr->hdrLen); ...; SwapU32(mobiHdr->exhtFlags)\<close>\<close>
          else if length buf < 132 then Fault ReadOutsideRecord
          else
            let hdrLen = be32 buf 20 in
            if recLeft < hdrLen then Failed MobiHeaderTooBig
            else
              let hasExtraFlags = (228 \<le> hdrLen);
                  flags = be16 buf 242;
                  st2 = (if hasExtraFlags
                         then st1\<lparr>multibyte := (flags AND 1 \<noteq> 0),
                                  trailersCount := count_trailers flags (trailersCount st1)\<rparr>
                         else st1)
              in
              if comprType = COMPRESSION_HUFF then
                \<comment> \<open>\<^verbatim>\<open>assert(isMobi)\<close>\<close>
                let huffmanFirstRec = be32 buf 112;
                    huffmanRecCount = be32 buf 116
                in
                (case ReadRecord st2 (unat huffmanFirstRec) of
                   Ok recData \<Rightarrow>
                     \<comment> \<open>\<^verbatim>\<open>assert(NULL == huffDic)\<close>\<close>
                     (case SetHuffData HuffDicDecompressor_new recData of
                        Ok h \<Rightarrow>
                          (case ParseHeader_cdic st2 h huffmanFirstRec huffmanRecCount 1 of
                             Ok u \<Rightarrow> Ok (st2\<lparr>huffDic := Some h\<rparr>)
                           | Failed f \<Rightarrow> Failed f
                           | Fault x \<Rightarrow> Fault x)
                      | Failed f \<Rightarrow> Failed f
                      | Fault x \<Rightarrow> Fault x)
                 | Failed f \<Rightarrow> Failed f
                 | Fault x \<Rightarrow> Fault x)
              else Ok st2)"

definition ParseHeader :: "pdb_layout \<Rightarrow> u8 list \<Rightarrow> MobiParse result" where
  "ParseHeader L f =
     (case ParseHeader_pdb L f of
        Ok st \<Rightarrow>
          (case ReadRecord st 0 of
             Ok buf \<Rightarrow> ParseHeader_doc st buf
           | Failed e \<Rightarrow> Failed e
           | Fault x \<Rightarrow> Fault x)
      | Failed e \<Rightarrow> Failed e
      | Fault x \<Rightarrow> Fault x)"

text \<open>
  \<^verbatim>\<open>bool MobiParse::LoadDocRecordIntoBuffer(size_t recNo, str::Str<char>& strOut)\<close>: the
  new contents of \<^verbatim>\<open>strOut\<close>. \<^verbatim>\<open>recSize -= extraSize\<close> wraps around;
  \<^verbatim>\<open>strOut.Append(recData, recSize)\<close> reads \<open>recSize\<close> bytes of the record, and
  \<^verbatim>\<open>PalmdocUncompress\<close> gets the record with \<open>recSize\<close> as its declared length and a
  buffer of 6000 bytes.
\<close>

definition LoadDocRecordIntoBuffer :: "MobiParse \<Rightarrow> nat \<Rightarrow> u8 list \<Rightarrow> u8 list result" where
  "LoadDocRecordIntoBuffer st recNo strOut =
     (case ReadRecord st recNo of
        Ok recData \<Rightarrow>
          (case ExtraDataSize recData (word_of_nat (length recData)) (trailersCount st) (multibyte st) of
             Ok extraSize \<Rightarrow>
               let recSize = (word_of_nat (length recData) :: size_t) - extraSize in
               if COMPRESSION_NONE = compressionType st then
                 if length recData < unat recSize then Fault ReadOutsideRecord
                 else Ok (strOut @ take (unat recSize) recData)
               else if COMPRESSION_PALM = compressionType st then
                 (case PalmdocUncompress recData (unat recSize) 6000 of
                    Ok out \<Rightarrow> Ok (strOut @ out)
                  | Failed f \<Rightarrow> Failed f
                  | Fault x \<Rightarrow> Fault x)
               else if COMPRESSION_HUFF = compressionType st then Failed HuffNotImplemented
               else Failed NoDecompressor
           | Failed f \<Rightarrow> Failed f
           | Fault x \<Rightarrow> Fault x)
      | Failed f \<Rightarrow> Failed f
      | Fault x \<Rightarrow> Fault x)"

text \<open>
  The loop of \<^verbatim>\<open>LoadDocument\<close>: \<^verbatim>\<open>for (size_t i = 1; i <= docRecCount; i++)\<close>. The
  counter is a natural number: a \<^verbatim>\<open>size_t\<close> counter wraps only after \<open>2 ^ 32 - 1\<close>
  records have been loaded, and \<^verbatim>\<open>ReadRecord\<close> leaves the table long before (the
  table of a parsed file has at most 32768 entries).
\<close>

function LoadDocument_loop :: "MobiParse \<Rightarrow> nat \<Rightarrow> u8 list \<Rightarrow> u8 list result" where
  "LoadDocument_loop st i d =
     (if i \<le> unat (docRecCount st) then
        (case LoadDocRecordIntoBuffer st i d of
           Ok d' \<Rightarrow> LoadDocument_loop st (i + 1) d'
         | Failed f \<Rightarrow> Failed f
         | Fault x \<Rightarrow> Fault x)
      else Ok d)"
  by pat_completeness auto
termination
  by (relation "measure (\<lambda>(st, i, d). unat (docRecCount st) + 1 - i)") auto

definition LoadDocument :: "MobiParse \<Rightarrow> MobiParse result" where
  "LoadDocument st =
     \<comment> \<open>\<^verbatim>\<open>assert(docUncompressedSize > 0); assert(0 == doc.Size())\<close>\<close>
     (case LoadDocument_loop st 1 (doc st) of
        Ok d \<Rightarrow>
          \<comment> \<open>\<^verbatim>\<open>assert(docUncompressedSize == doc.Size())\<close>\<close>
          Ok (st\<lparr>doc := d\<rparr>)
      | Failed f \<Rightarrow> Failed f
      | Fault x \<Rightarrow> Fault x)"

text \<open>\<^verbatim>\<open>MobiParse::ParseFile\<close> on a file that \<^verbatim>\<open>CreateFile\<close> has opened.\<close>

definition ParseFile :: "pdb_layout \<Rightarrow> u8 list \<Rightarrow> MobiParse result" where
  "ParseFile L f =
     (case ParseHeader L f of
        Ok st \<Rightarrow> LoadDocument st
      | Failed e \<Rightarrow> Failed e
      | Fault x \<Rightarrow> Fault x)"


section \<open>The fields of the container as \<^verbatim>\<open>ParseHeader\<close> reads them\<close>

text \<open>
  \<^verbatim>\<open>pdbHeader.numRecords\<close> after \<^verbatim>\<open>SwapI16\<close>, and the table \<^verbatim>\<open>recHeaders\<close> with its
  sentinel, as functions of the layout and the file. \<^verbatim>\<open>ParseHeader\<close> stores exactly these
  when it gets past the loop "validate offsets" (lemma \<open>ParseHeader_pdb_Ok\<close>).
\<close>

definition pdb_numRecords :: "pdb_layout \<Rightarrow> u8 list \<Rightarrow> u16" where
  "pdb_numRecords L f = be16 (ReadFile f 0 (kPdbHeaderLen L)) (numRecords_off L)"

definition pdb_recHeaders :: "pdb_layout \<Rightarrow> u8 list \<Rightarrow> u32 list" where
  "pdb_recHeaders L f =
     (let n = nat (sint (pdb_numRecords L f));
          recs = ReadFile f (kPdbHeaderLen L) (kPdbRecordHeaderLen L * n)
      in map (\<lambda>i. be32 recs (kPdbRecordHeaderLen L * i + offset_off L)) [0..<n]
         @ [word_of_nat (length f)])"

section \<open>Concrete files\<close>

text \<open>
  A PDB header of the layout \<open>pdb_std\<close> with the given type and creator and the given
  \<^verbatim>\<open>numRecords\<close> (two bytes), and one entry of the table of record headers.
\<close>

definition pdb_header :: "u8 list \<Rightarrow> u8 list \<Rightarrow> u8 list" where
  "pdb_header ty n = replicate 60 0 @ ty @ replicate 8 0 @ n"

definition pdb_entry :: "u8 list \<Rightarrow> u8 list" where
  "pdb_entry off = off @ [0, 0, 0, 0]"

text \<open>
  A \<^verbatim>\<open>PalmDocHeader\<close> with the given \<^verbatim>\<open>compressionType\<close>, \<^verbatim>\<open>recordsCount\<close> and
  \<^verbatim>\<open>mobi.encrType\<close> (two bytes each) and \<^verbatim>\<open>uncompressedDocSize = 0\<close>, and the first 116
  bytes of a \<^verbatim>\<open>MobiHeader\<close> with the given \<^verbatim>\<open>hdrLen\<close>, \<^verbatim>\<open>huffmanFirstRec\<close> and
  \<^verbatim>\<open>huffmanRecCount\<close> (four bytes each).
\<close>

definition PalmDocHeader_bytes :: "u8 list \<Rightarrow> u8 list \<Rightarrow> u8 list \<Rightarrow> u8 list" where
  "PalmDocHeader_bytes compr records encr =
     compr @ [0, 0] @ [0, 0, 0, 0] @ records @ [0x10, 0] @ encr @ [0, 0]"

definition MobiHeader_bytes :: "u8 list \<Rightarrow> u8 list \<Rightarrow> u8 list \<Rightarrow> u8 list" where
  "MobiHeader_bytes hdrLen huffmanFirstRec huffmanRecCount =
     MOBI_id @ hdrLen @ replicate 88 0 @ huffmanFirstRec @ huffmanRecCount @ replicate 12 0"

text \<open>
  A PalmDoc file of two records: record 0 is a \<^verbatim>\<open>PalmDocHeader\<close> with no compression,
  \<^verbatim>\<open>uncompressedDocSize = 5\<close> and \<^verbatim>\<open>recordsCount = 1\<close>; record 1 is the four bytes
  "abcd". \<open>doc_short_env\<close> is what the first part of \<^verbatim>\<open>ParseHeader\<close> makes of it.
\<close>

definition doc_short :: "u8 list" where
  "doc_short =
     pdb_header PALMDOC_TYPE_CREATOR [0, 2] @ pdb_entry [0, 0, 0, 94] @ pdb_entry [0, 0, 0, 110]
     @ [0, 1, 0, 0, 0, 0, 0, 5, 0, 1, 0x10, 0, 0, 0, 0, 0]
     @ [0x61, 0x62, 0x63, 0x64]"

definition doc_short_env :: MobiParse where
  "doc_short_env = (MobiParse_new doc_short)\<lparr>numRecords := 2, recHeaders := [94, 110, 114]\<rparr>"

text \<open>A PalmDoc file whose PDB header declares no record.\<close>

definition pdb_no_records :: "u8 list" where
  "pdb_no_records = pdb_header PALMDOC_TYPE_CREATOR [0, 0]"

text \<open>
  A MOBI file of one record, a \<^verbatim>\<open>PalmDocHeader\<close> alone, with PalmDoc compression and
  \<^verbatim>\<open>mobi.encrType = ENCRYPTION_OLD\<close>.
\<close>

definition mobi_encrypted :: "u8 list" where
  "mobi_encrypted =
     pdb_header MOBI_TYPE_CREATOR [0, 1] @ pdb_entry [0, 0, 0, 86]
     @ PalmDocHeader_bytes [0, 2] [0, 1] [0, 1]"

text \<open>
  A MOBI file of one record: a \<^verbatim>\<open>PalmDocHeader\<close> with no compression and a
  \<^verbatim>\<open>MobiHeader\<close> of 228 bytes whose \<^verbatim>\<open>extraDataFlags\<close> are 7.
\<close>

definition mobi_flags :: "u8 list" where
  "mobi_flags =
     pdb_header MOBI_TYPE_CREATOR [0, 1] @ pdb_entry [0, 0, 0, 86]
     @ PalmDocHeader_bytes [0, 1] [0, 0] [0, 0]
     @ MobiHeader_bytes [0, 0, 0, 228] [0, 0, 0, 0] [0, 0, 0, 0] @ replicate 110 0 @ [0, 7]"

text \<open>
  A first dictionary record: a well-formed \<^verbatim>\<open>HuffHeader\<close> (\<^verbatim>\<open>hdrLen = 24\<close>,
  \<^verbatim>\<open>cacheOffset = 24\<close>, \<^verbatim>\<open>baseTableOffset = 1048\<close>), a cache of 256 entries that are
  all zero, and one byte of base table.
\<close>

definition huff_zero_cache :: "u8 list" where
  "huff_zero_cache =
     HUFF_id @ [0, 0, 0, 24, 0, 0, 0, 24, 0, 0, 4, 24, 0, 0, 0, 0, 0, 0, 0, 0]
     @ replicate 1024 0 @ [0]"

text \<open>
  Two MOBI files with Huffman compression and no text record
  (\<^verbatim>\<open>recordsCount = 0\<close>), whose dictionary starts at record 1, which is
  \<open>huff_zero_cache\<close>: \<open>huff_two_dicts\<close> declares two dictionary records and has a record
  2 ("CDIC"), \<open>huff_one_dict\<close> declares one.
\<close>

definition huff_two_dicts :: "u8 list" where
  "huff_two_dicts =
     pdb_header MOBI_TYPE_CREATOR [0, 3]
     @ pdb_entry [0, 0, 0, 102] @ pdb_entry [0, 0, 0, 234] @ pdb_entry [0, 0, 5, 3]
     @ PalmDocHeader_bytes [0x44, 0x48] [0, 0] [0, 0]
     @ MobiHeader_bytes [0, 0, 0, 116] [0, 0, 0, 1] [0, 0, 0, 2]
     @ huff_zero_cache
     @ [0x43, 0x44, 0x49, 0x43]"

definition huff_one_dict :: "u8 list" where
  "huff_one_dict =
     pdb_header MOBI_TYPE_CREATOR [0, 2]
     @ pdb_entry [0, 0, 0, 94] @ pdb_entry [0, 0, 0, 226]
     @ PalmDocHeader_bytes [0x44, 0x48] [0, 0] [0, 0]
     @ MobiHeader_bytes [0, 0, 0, 116] [0, 0, 0, 1] [0, 0, 0, 1]
     @ huff_zero_cache"

text \<open>
  A PalmDoc file with PalmDoc compression whose only text record is the literal "A"
  followed by 600 back-references with distance 1 and length 10 (\<open>0x80 0x0F\<close>): 6001
  bytes once expanded. \<open>palm_overflow_env\<close> is what \<^verbatim>\<open>ParseHeader\<close> makes of the file.
\<close>

definition palm_overflow_rec :: "u8 list" where
  "palm_overflow_rec = 0x41 # concat (replicate 600 [0x80, 0x0F])"

definition palm_overflow :: "u8 list" where
  "palm_overflow =
     pdb_header PALMDOC_TYPE_CREATOR [0, 2] @ pdb_entry [0, 0, 0, 94] @ pdb_entry [0, 0, 0, 110]
     @ PalmDocHeader_bytes [0, 2] [0, 1] [0, 0]
     @ palm_overflow_rec"

definition palm_overflow_env :: MobiParse where
  "palm_overflow_env =
     (MobiParse_new palm_overflow)\<lparr>numRecords := 2, recHeaders := [94, 110, 1311],
        docRecCount := 1, compressionType := COMPRESSION_PALM\<rparr>"

text \<open>
  A MOBI file without compression whose \<^verbatim>\<open>extraDataFlags\<close> are 2 (one trailer, no
  multibyte trailer) and whose only text record is the four bytes \<open>00 00 00 05\<close>.
  \<open>mobi_trailer_env\<close> is what \<^verbatim>\<open>ParseHeader\<close> makes of the file.
\<close>

definition mobi_trailer :: "u8 list" where
  "mobi_trailer =
     pdb_header MOBI_TYPE_CREATOR [0, 2] @ pdb_entry [0, 0, 0, 94] @ pdb_entry [0, 0, 1, 0x52]
     @ PalmDocHeader_bytes [0, 1] [0, 1] [0, 0]
     @ MobiHeader_bytes [0, 0, 0, 228] [0, 0, 0, 0] [0, 0, 0, 0] @ replicate 110 0 @ [0, 2]
     @ [0, 0, 0, 5]"

definition mobi_trailer_env :: MobiParse where
  "mobi_trailer_env =
     (MobiParse_new mobi_trailer)\<lparr>numRecords := 2, recHeaders := [94, 338, 342],
        isMobi := True, docRecCount := 1, compressionType := COMPRESSION_NONE,
        trailersCount := 1\<rparr>"

declare PalmdocUncompress_loop.simps [simp del]
declare count_trailers.simps [simp del]
declare ParseHeader_cdic.simps [simp del]
declare LoadDocument_loop.simps [simp del]

section \<open>PalmdocUncompress: the back-reference\<close>





















section \<open>PalmdocUncompress: the end of the output buffer\<close>

text \<open>A copy from distance 1 repeats the last byte until the buffer is full.\<close>

lemma copy_back_run:
  "1 \<le> m \<Longrightarrow>
   copy_back 1 dstLen (replicate m c) n =
     (if n = 0 \<or> m + n \<le> dstLen then Ok (replicate (m + n) c) else Fault WritePastDst)"
proof (induction n arbitrary: m)
  case 0
  then show ?case by simp
next
  case (Suc n)
  have app: "replicate m c @ [replicate m c ! (m - 1)] = replicate (Suc m) c"
    using Suc.prems by (simp add: replicate_append_same)
  show ?case
  proof (cases "dstLen \<le> m")
    case True
    then show ?thesis using Suc.prems by simp
  next
    case False
    then have "copy_back 1 dstLen (replicate m c) (Suc n) = copy_back 1 dstLen (replicate (Suc m) c) n"
      using Suc.prems app by simp
    also have "\<dots> = (if n = 0 \<or> Suc m + n \<le> dstLen then Ok (replicate (Suc m + n) c)
                      else Fault WritePastDst)"
      by (rule Suc.IH) simp
    finally show ?thesis using False by auto
  qed
qed

lemma nth_concat_pairs:
  "j < k \<Longrightarrow> concat (replicate k [a, b]) ! (2 * j) = a \<and>
              concat (replicate k [a, b]) ! (2 * j + 1) = b"
proof (induction k arbitrary: j)
  case 0
  then show ?case by simp
next
  case (Suc k)
  show ?case
  proof (cases j)
    case 0
    then show ?thesis by simp
  next
    case (Suc j')
    then have "j' < k" using Suc.prems by simp
    from Suc.IH [OF this] show ?thesis using Suc by simp
  qed
qed

lemma length_concat_pairs: "length (concat (replicate k [a, b])) = 2 * k"
  by (induction k) simp_all

lemma overflow_step:
  fixes k dstLen j :: nat
  defines "src \<equiv> 0x41 # concat (replicate k [0x80, 0x0F :: u8])"
  assumes j: "j < k" and room: "1 + 10 * j < dstLen"
  shows "PalmdocUncompress_loop src (1 + 2 * k) dstLen (1 + 2 * j) (replicate (1 + 10 * j) 0x41) =
         (if 1 + 10 * (j + 1) \<le> dstLen
          then PalmdocUncompress_loop src (1 + 2 * k) dstLen (1 + 2 * (j + 1))
                 (replicate (1 + 10 * (j + 1)) 0x41)
          else Fault WritePastDst)"
proof -
  have c: "src ! (1 + 2 * j) = 0x80" and d: "src ! (1 + 2 * j + 1) = 0x0F"
    using nth_concat_pairs [OF j, of "0x80 :: u8" "0x0F"] by (simp_all add: src_def)
  have len: "length src = 1 + 2 * k" by (simp add: src_def length_concat_pairs)
  have "PalmdocUncompress_loop src (1 + 2 * k) dstLen (1 + 2 * j) (replicate (1 + 10 * j) 0x41) =
        (case copy_back 1 dstLen (replicate (1 + 10 * j) 0x41) 10 of
           Ok out' \<Rightarrow> PalmdocUncompress_loop src (1 + 2 * k) dstLen (1 + 2 * j + 2) out'
         | Failed f \<Rightarrow> Failed f
         | Fault x \<Rightarrow> Fault x)"
    apply (subst PalmdocUncompress_loop.simps)
    using j room len c d
    apply (simp add: Let_def)
    done
  also have "\<dots> = (if 1 + 10 * (j + 1) \<le> dstLen
          then PalmdocUncompress_loop src (1 + 2 * k) dstLen (1 + 2 * (j + 1))
                 (replicate (1 + 10 * (j + 1)) 0x41)
          else Fault WritePastDst)"
    by (subst copy_back_run) (simp_all add: algebra_simps)
  finally show ?thesis .
qed

lemma overflow_run:
  fixes k dstLen j :: nat
  defines "src \<equiv> 0x41 # concat (replicate k [0x80, 0x0F :: u8])"
  assumes "j \<le> k" and "1 + 10 * j \<le> dstLen" "0 < dstLen"
  shows "PalmdocUncompress_loop src (1 + 2 * k) dstLen 0 [] =
         PalmdocUncompress_loop src (1 + 2 * k) dstLen (1 + 2 * j) (replicate (1 + 10 * j) 0x41)"
  using assms(2,3)
proof (induction j)
  case 0
  show ?case
    apply (subst PalmdocUncompress_loop.simps)
    using \<open>0 < dstLen\<close>
    apply (simp add: Let_def src_def)
    done
next
  case (Suc j)
  have "PalmdocUncompress_loop src (1 + 2 * k) dstLen 0 [] =
        PalmdocUncompress_loop src (1 + 2 * k) dstLen (1 + 2 * j) (replicate (1 + 10 * j) 0x41)"
    using Suc by simp
  also have "\<dots> = PalmdocUncompress_loop src (1 + 2 * k) dstLen (1 + 2 * (j + 1))
                 (replicate (1 + 10 * (j + 1)) 0x41)"
    unfolding src_def using Suc.prems by (subst overflow_step) simp_all
  finally show ?case by simp
qed

lemma palm_overflow_rec_Fault: "PalmdocUncompress palm_overflow_rec 1201 6000 = Fault WritePastDst"
proof -
  let ?src = "0x41 # concat (replicate 600 [0x80, 0x0F :: u8])"
  have "PalmdocUncompress_loop ?src (1 + 2 * 600) 6000 0 [] =
        PalmdocUncompress_loop ?src (1 + 2 * 600) 6000 (1 + 2 * 599) (replicate (1 + 10 * 599) 0x41)"
    by (rule overflow_run) simp_all
  also have "\<dots> = Fault WritePastDst"
    by (subst overflow_step) simp_all
  finally show ?thesis by (simp add: PalmdocUncompress_def palm_overflow_rec_def)
qed

lemma palm_overflow_parsed: "ParseHeader pdb_std palm_overflow = Ok palm_overflow_env"
  by code_simp

lemma palm_overflow_record:
  "ReadRecord palm_overflow_env 1 = Ok palm_overflow_rec"
  "length palm_overflow_rec = 1201"
  by code_simp+

lemma palm_overflow_load:
  "LoadDocRecordIntoBuffer palm_overflow_env 1 [] = Fault WritePastDst"
proof -
  have env: "trailersCount palm_overflow_env = 0" "multibyte palm_overflow_env = False"
    "compressionType palm_overflow_env = COMPRESSION_PALM"
    by (simp_all add: palm_overflow_env_def MobiParse_new_def)
  have extra: "ExtraDataSize palm_overflow_rec 1201 0 False = Ok 0"
    by (simp add: ExtraDataSize_def)
  show ?thesis
    by (simp add: LoadDocRecordIntoBuffer_def palm_overflow_record
        palm_overflow_record(1) [unfolded One_nat_def] env extra palm_overflow_rec_Fault)
qed

text \<open>
  Claim C1. Every step of the decoder that would write past the output bound fails with
  \<open>OutputBufferTooSmall\<close>. The source checks the bound for a run of raw bytes, a literal
  and a space pair, and only asserts it for a back-reference
  (\<^verbatim>\<open>assert(dstLeft >= n)\<close>). With the bound 2, the input \<open>0x41 0x80 0x09\<close> (the
  literal "A", then a copy of 4 bytes from distance 1) does not return \<^verbatim>\<open>-1\<close>: the copy
  writes one byte inside the buffer and the next one after its end. The same bound
  makes three literals fail as the claim says. With the bound 6000 that
  \<^verbatim>\<open>LoadDocRecordIntoBuffer\<close> passes, the record of the file \<open>palm_overflow\<close> does the
  same, and so does \<^verbatim>\<open>ParseFile\<close> on that file.
\<close>

theorem PalmdocUncompress_overrun:
  "PalmdocUncompress [0x41, 0x80, 0x09] 3 2 = Fault WritePastDst \<and>
   PalmdocUncompress [0x41, 0x41, 0x41] 3 2 = Failed OutputBufferTooSmall \<and>
   PalmdocUncompress palm_overflow_rec 1201 6000 = Fault WritePastDst \<and>
   ParseFile pdb_std palm_overflow = Fault WritePastDst"
proof -
  have small: "PalmdocUncompress [0x41, 0x80, 0x09] 3 2 = Fault WritePastDst \<and>
     PalmdocUncompress [0x41, 0x41, 0x41] 3 2 = Failed OutputBufferTooSmall"
    by code_simp
  have count: "docRecCount palm_overflow_env = 1" "doc palm_overflow_env = []"
    by (simp_all add: palm_overflow_env_def MobiParse_new_def)
  have "LoadDocument_loop palm_overflow_env 1 [] = Fault WritePastDst"
    by (subst LoadDocument_loop.simps)
       (simp add: count palm_overflow_load palm_overflow_load [unfolded One_nat_def])
  then have "ParseFile pdb_std palm_overflow = Fault WritePastDst"
    by (simp add: ParseFile_def palm_overflow_parsed LoadDocument_def count)
  then show ?thesis using small palm_overflow_rec_Fault by simp
qed

section \<open>SetHuffData: the cache\<close>

text \<open>
  Claim C7. Initialisation of the Huffman decoder fails when one of the 256 cache entries
  has a code length of zero (or is not terminal with a code length of at most 8).
  \<^verbatim>\<open>UnpackCacheData\<close> returns \<^verbatim>\<open>false\<close> for such a cache, and \<^verbatim>\<open>SetHuffData\<close> calls
  it without looking at what it returns: on \<open>huff_zero_cache\<close>, whose cache entries are
  all zero, \<^verbatim>\<open>UnpackCacheData\<close> returns \<^verbatim>\<open>false\<close> and \<^verbatim>\<open>SetHuffData\<close> returns
  \<^verbatim>\<open>true\<close>, with a zero code length stored in the table. \<^verbatim>\<open>ParseHeader\<close> accepts the
  file \<open>huff_one_dict\<close>, whose dictionary record it is.
\<close>

theorem SetHuffData_ignores_UnpackCacheData:
  "(case UnpackCacheData huff_zero_cache 24 (dict1 HuffDicDecompressor_new) of
      Ok (ok, d) \<Rightarrow> \<not> ok
    | Failed f \<Rightarrow> False
    | Fault x \<Rightarrow> False) \<and>
   (case SetHuffData HuffDicDecompressor_new huff_zero_cache of
      Ok h \<Rightarrow> codeLen (dict1 h ! 0) = 0 \<and> baseTable h = Some 1048
    | Failed f \<Rightarrow> False
    | Fault x \<Rightarrow> False) \<and>
   (case ParseHeader pdb_std huff_one_dict of
      Ok st \<Rightarrow> (case huffDic st of Some h \<Rightarrow> codeLen (dict1 h ! 0) = 0 | None \<Rightarrow> False)
    | Failed f \<Rightarrow> False
    | Fault x \<Rightarrow> False)"
  by code_simp

section \<open>ExtraDataSize: trailers longer than the record\<close>

lemma mobi_trailer_parsed: "ParseHeader pdb_std mobi_trailer = Ok mobi_trailer_env"
  by code_simp

lemma mobi_trailer_record: "ReadRecord mobi_trailer_env 1 = Ok [0, 0, 0, 5]"
  by code_simp

lemma mobi_trailer_extra: "ExtraDataSize [0, 0, 0, 5] 4 1 False = Ok 5"
  by code_simp

lemma mobi_trailer_load:
  "LoadDocRecordIntoBuffer mobi_trailer_env 1 [] = Fault ReadOutsideRecord"
proof -
  have env: "trailersCount mobi_trailer_env = 1" "multibyte mobi_trailer_env = False"
    "compressionType mobi_trailer_env = COMPRESSION_NONE"
    by (simp_all add: mobi_trailer_env_def MobiParse_new_def)
  have wrapped: "unat (- 1 :: size_t) = 4294967295"
    by (simp add: unsigned_minus_1_eq_mask mask_eq_exp_minus_1)
  show ?thesis
    by (simp add: LoadDocRecordIntoBuffer_def mobi_trailer_record
        mobi_trailer_record [unfolded One_nat_def] env mobi_trailer_extra Let_def wrapped)
qed

text \<open>
  Claim C5. A trailer that is longer than what is left of the record makes the stripping
  fail. The source only asserts \<^verbatim>\<open>newLen > n\<close> and \<^verbatim>\<open>newLen >= n\<close>; the subtraction
  wraps around and \<^verbatim>\<open>ExtraDataSize\<close>, which has no error return, reports more trailing
  bytes than the record has: 5 for the four-byte record \<open>00 00 00 05\<close> with one trailer,
  and 4 for the one-byte record \<open>03\<close> with the multibyte trailer. On the file
  \<open>mobi_trailer\<close> the size of the record then wraps around to \<open>2 ^ 32 - 1\<close> in
  \<^verbatim>\<open>LoadDocRecordIntoBuffer\<close>, which appends that many bytes of a four-byte record.
\<close>

theorem ExtraDataSize_exceeds_record:
  "ExtraDataSize [0, 0, 0, 5] 4 1 False = Ok 5 \<and>
   ExtraDataSize [3] 1 0 True = Ok 4 \<and>
   ParseFile pdb_std mobi_trailer = Fault ReadOutsideRecord"
proof -
  have small: "ExtraDataSize [0, 0, 0, 5] 4 1 False = Ok 5 \<and> ExtraDataSize [3] 1 0 True = Ok 4"
    by code_simp
  have count: "docRecCount mobi_trailer_env = 1" "doc mobi_trailer_env = []"
    by (simp_all add: mobi_trailer_env_def MobiParse_new_def)
  have "LoadDocument_loop mobi_trailer_env 1 [] = Fault ReadOutsideRecord"
    by (subst LoadDocument_loop.simps)
       (simp add: count mobi_trailer_load mobi_trailer_load [unfolded One_nat_def])
  then have "ParseFile pdb_std mobi_trailer = Fault ReadOutsideRecord"
    by (simp add: ParseFile_def mobi_trailer_parsed LoadDocument_def count)
  then show ?thesis using small by simp
qed

section \<open>LoadDocument: the size of the document\<close>

text \<open>
  Claim C2. Loading fails when the records, all read and decompressed, do not add up to
  the size the header declares. The source only asserts
  \<^verbatim>\<open>docUncompressedSize == doc.Size()\<close> and then returns \<^verbatim>\<open>true\<close>: the file
  \<open>doc_short\<close> declares 5 bytes, its only text record has 4, and \<^verbatim>\<open>ParseFile\<close>
  returns the document of 4 bytes.
\<close>

theorem LoadDocument_ignores_size:
  "(case ParseFile pdb_std doc_short of
      Ok st \<Rightarrow> doc st = [0x61, 0x62, 0x63, 0x64] \<and> docUncompressedSize st = 5
    | Failed f \<Rightarrow> False
    | Fault x \<Rightarrow> False)"
  by code_simp

section \<open>The container: record count and table of offsets\<close>

lemma offsets_valid_iff:
  "offsets_valid xs \<longleftrightarrow> (\<forall>i. i + 1 < length xs \<longrightarrow> sint (xs ! i) \<le> sint (xs ! (i + 1)))"
proof (induction xs rule: offsets_valid.induct)
  case (1 a b xs)
  show ?case
  proof
    assume v: "offsets_valid (a # b # xs)"
    then have ab: "sint a \<le> sint b" and rest: "offsets_valid (b # xs)"
      by (auto simp add: word_sless_alt split: if_splits)
    show "\<forall>i. i + 1 < length (a # b # xs) \<longrightarrow> sint ((a # b # xs) ! i) \<le> sint ((a # b # xs) ! (i + 1))"
    proof (intro allI impI)
      fix i assume i: "i + 1 < length (a # b # xs)"
      show "sint ((a # b # xs) ! i) \<le> sint ((a # b # xs) ! (i + 1))"
      proof (cases i)
        case 0
        then show ?thesis using ab by simp
      next
        case (Suc j)
        then have "j + 1 < length (b # xs)" using i by simp
        then have "sint ((b # xs) ! j) \<le> sint ((b # xs) ! (j + 1))"
          using 1 rest ab by (auto simp add: word_sless_alt)
        then show ?thesis using Suc by simp
      qed
    qed
  next
    assume h: "\<forall>i. i + 1 < length (a # b # xs) \<longrightarrow> sint ((a # b # xs) ! i) \<le> sint ((a # b # xs) ! (i + 1))"
    from h [rule_format, of 0] have ab: "sint a \<le> sint b" by simp
    have "\<forall>j. j + 1 < length (b # xs) \<longrightarrow> sint ((b # xs) ! j) \<le> sint ((b # xs) ! (j + 1))"
    proof (intro allI impI)
      fix j assume "j + 1 < length (b # xs)"
      then show "sint ((b # xs) ! j) \<le> sint ((b # xs) ! (j + 1))"
        using h [rule_format, of "Suc j"] by simp
    qed
    then have "offsets_valid (b # xs)" using 1 ab by (auto simp add: word_sless_alt)
    then show "offsets_valid (a # b # xs)" using ab by (simp add: word_sless_alt)
  qed
qed simp_all

lemma ParseHeader_pdb_Ok:
  assumes "ParseHeader_pdb L f = Ok st"
  shows "st = (MobiParse_new f)\<lparr>isMobi := isMobi st, numRecords := pdb_numRecords L f,
                                 recHeaders := pdb_recHeaders L f\<rparr>"
    and "1 \<le> sint (pdb_numRecords L f)"
    and "offsets_valid (pdb_recHeaders L f)"
  using assms
  by (auto simp add: ParseHeader_pdb_def pdb_numRecords_def pdb_recHeaders_def Let_def
           split: if_splits)

lemma ParseHeader_pdb_no_Fault: "ParseHeader_pdb L f \<noteq> Fault x"
  by (auto simp add: ParseHeader_pdb_def Let_def split: if_splits)

lemma ParseHeader_pdb_Failed:
  assumes "sint (pdb_numRecords L f) < 1 \<or> \<not> offsets_valid (pdb_recHeaders L f)"
  shows "\<exists>e. ParseHeader_pdb L f = Failed e"
  using assms
  by (auto simp add: ParseHeader_pdb_def pdb_numRecords_def pdb_recHeaders_def Let_def
           split: if_splits)

lemma ParseHeader_pdb_fresh:
  assumes "ParseHeader_pdb L f = Ok st0"
  shows "doc st0 = []" "multibyte st0 = False" "trailersCount st0 = 0"
proof -
  have st: "st0 = (MobiParse_new f)\<lparr>isMobi := isMobi st0, numRecords := pdb_numRecords L f,
                                 recHeaders := pdb_recHeaders L f\<rparr>"
    by (rule ParseHeader_pdb_Ok(1) [OF assms])
  show "doc st0 = []" by (subst st) (simp add: MobiParse_new_def)
  show "multibyte st0 = False" by (subst st) (simp add: MobiParse_new_def)
  show "trailersCount st0 = 0" by (subst st) (simp add: MobiParse_new_def)
qed

lemma doc_short_parsed: "ParseHeader_pdb pdb_std doc_short = Ok doc_short_env"
  by code_simp

lemma ParseHeader_Ok:
  assumes "ParseHeader L f = Ok st"
  obtains st0 buf where "ParseHeader_pdb L f = Ok st0" "ReadRecord st0 0 = Ok buf"
    "ParseHeader_doc st0 buf = Ok st"
  using assms by (auto simp add: ParseHeader_def split: result.splits)

text \<open>
  \<^verbatim>\<open>ParseHeader\<close> returns \<^verbatim>\<open>true\<close> only after \<^verbatim>\<open>ReadRecord(0, recLeft)\<close> has succeeded, and
  the rest of it leaves the record count and the table as they are. \<^verbatim>\<open>ReadRecord\<close> fails
  at a negative offset, and an offset that is not negative is the same number read as
  \<^verbatim>\<open>int32_t\<close> and as \<^verbatim>\<open>uint32_t\<close>.
\<close>

lemma ParseHeader_doc_table:
  "ParseHeader_doc st0 buf = Ok st \<Longrightarrow>
   numRecords st = numRecords st0 \<and> recHeaders st = recHeaders st0"
  by (auto simp add: ParseHeader_doc_def Let_def split: if_splits result.splits)

lemma ReadRecord_Ok_offset: "ReadRecord st recNo = Ok buf \<Longrightarrow> 0 \<le> sint (recHeaders st ! recNo)"
  by (auto simp add: ReadRecord_def Let_def split: if_splits)

lemma sint_nonneg_uint:
  fixes w :: u32
  assumes "0 \<le> sint w"
  shows "uint w = sint w"
proof -
  have r: "sint w < 2 ^ 31" using sint_range_size [of w] by (simp add: word_size)
  have "uint (word_of_int (sint w) :: u32) = sint w mod 2 ^ 32"
    by (simp only: uint_word_of_int) simp
  also have "\<dots> = sint w" using assms r by (intro mod_pos_pos_trivial) simp_all
  finally show ?thesis by simp
qed

lemma signed_le_unsigned_less:
  fixes a b :: u32
  assumes "sint a \<le> sint b" "b < a"
  shows "sint a < 0"
proof (rule ccontr)
  assume "\<not> sint a < 0"
  then have a: "0 \<le> sint a" by simp
  then have b: "0 \<le> sint b" using assms(1) by simp
  have "uint a \<le> uint b" using a b assms(1) by (simp add: sint_nonneg_uint)
  then show False using assms(2) by (simp add: word_less_def)
qed

lemma mono_chain:
  fixes xs :: "u32 list"
  assumes "\<forall>i. i + 1 < length xs \<longrightarrow> sint (xs ! i) \<le> sint (xs ! (i + 1))"
  shows "i < length xs \<Longrightarrow> sint (xs ! 0) \<le> sint (xs ! i)"
proof (induction i)
  case 0
  then show ?case by simp
next
  case (Suc i)
  then have "sint (xs ! 0) \<le> sint (xs ! i)" by simp
  moreover have "sint (xs ! i) \<le> sint (xs ! (i + 1))" using assms Suc.prems by simp
  ultimately show ?case by simp
qed

lemma sentinel_length:
  assumes "length f < 2 ^ 32"
  shows "uint (word_of_nat (length f) :: u32) = int (length f)"
proof -
  have "unat (word_of_nat (length f) :: u32) = length f"
    using assms by (simp add: unat_of_nat take_bit_nat_eq_self)
  then show ?thesis by (simp add: uint_nat)
qed

lemma pdb_recHeaders_length:
  "length (pdb_recHeaders L f) = nat (sint (pdb_numRecords L f)) + 1"
  by (simp add: pdb_recHeaders_def Let_def)

lemma pdb_recHeaders_last: "last (pdb_recHeaders L f) = word_of_nat (length f)"
  by (simp add: pdb_recHeaders_def Let_def)

lemma ParseHeader_pdb_seek:
  assumes ok: "ParseHeader_pdb L f = Ok st0" and neg: "sint (pdb_recHeaders L f ! 0) < 0"
  shows "ParseHeader L f = Failed SeekFailed"
proof -
  note inv = ParseHeader_pdb_Ok [OF ok]
  have t: "recHeaders st0 = pdb_recHeaders L f" by (subst inv(1)) simp
  have "1 < length (recHeaders st0)"
    using inv(2) unfolding t pdb_recHeaders_length by simp
  then have "ReadRecord st0 0 = Failed SeekFailed"
    using neg unfolding t [symmetric] by (simp add: ReadRecord_def Let_def)
  then show ?thesis using ok by (simp add: ParseHeader_def)
qed

text \<open>
  Claim C6. Whenever \<^verbatim>\<open>ParseHeader\<close> succeeds, the record count is at least 1, the table
  holds one entry more than the record count, its last entry is the size of the file (for
  a file whose size a \<^verbatim>\<open>size_t\<close> holds, which is what \<^verbatim>\<open>file::GetSize\<close> returns: a file of
  fewer than \<open>2 ^ 32\<close> bytes), and no offset exceeds its successor: no offset is negative,
  so that the order is the same for offsets read as signed and as unsigned 32-bit values.
  \<^verbatim>\<open>ParseHeader\<close> fails whenever the record count of the file is below 1 or some offset
  exceeds its successor, in either reading.
\<close>

theorem ParseHeader_envelope:
  "(\<forall>st. ParseHeader L f = Ok st \<longrightarrow>
      numRecords st = pdb_numRecords L f \<and> recHeaders st = pdb_recHeaders L f \<and>
      1 \<le> sint (numRecords st) \<and>
      length (recHeaders st) = nat (sint (numRecords st)) + 1 \<and>
      last (recHeaders st) = word_of_nat (length f) \<and>
      (length f < 2 ^ 32 \<longrightarrow>
         uint (last (recHeaders st)) = int (length f) \<and>
         sint (last (recHeaders st)) = int (length f)) \<and>
      (\<forall>i < nat (sint (numRecords st)).
         0 \<le> sint (recHeaders st ! i) \<and>
         sint (recHeaders st ! i) \<le> sint (recHeaders st ! (i + 1)) \<and>
         recHeaders st ! i \<le> recHeaders st ! (i + 1))) \<and>
   (sint (pdb_numRecords L f) < 1 \<or>
    (\<exists>i < nat (sint (pdb_numRecords L f)).
        sint (pdb_recHeaders L f ! (i + 1)) < sint (pdb_recHeaders L f ! i) \<or>
        pdb_recHeaders L f ! (i + 1) < pdb_recHeaders L f ! i)
    \<longrightarrow> (\<exists>e. ParseHeader L f = Failed e))"
proof (intro conjI allI impI)
  fix st assume p: "ParseHeader L f = Ok st"
  from p obtain st0 buf where ok: "ParseHeader_pdb L f = Ok st0"
    and rec0: "ReadRecord st0 0 = Ok buf" and d: "ParseHeader_doc st0 buf = Ok st"
    by (rule ParseHeader_Ok)
  note inv = ParseHeader_pdb_Ok [OF ok]
  have n0: "numRecords st0 = pdb_numRecords L f" by (subst inv(1)) simp
  have t0: "recHeaders st0 = pdb_recHeaders L f" by (subst inv(1)) simp
  show n: "numRecords st = pdb_numRecords L f"
    using ParseHeader_doc_table [OF d] n0 by simp
  show t: "recHeaders st = pdb_recHeaders L f"
    using ParseHeader_doc_table [OF d] t0 by simp
  show one: "1 \<le> sint (numRecords st)" using inv(2) n by simp
  show len: "length (recHeaders st) = nat (sint (numRecords st)) + 1"
    unfolding t n by (rule pdb_recHeaders_length)
  show l: "last (recHeaders st) = word_of_nat (length f)"
    unfolding t by (rule pdb_recHeaders_last)
  have mono: "\<forall>i. i + 1 < length (recHeaders st) \<longrightarrow>
                sint (recHeaders st ! i) \<le> sint (recHeaders st ! (i + 1))"
    using inv(3) unfolding t [symmetric] by (simp add: offsets_valid_iff)
  have first: "0 \<le> sint (recHeaders st ! 0)"
    using ReadRecord_Ok_offset [OF rec0] t t0 by simp
  have nonneg: "0 \<le> sint (recHeaders st ! i)" if "i < length (recHeaders st)" for i
    using mono_chain [OF mono that] first by simp
  have "recHeaders st \<noteq> []" using len by auto
  then have "last (recHeaders st) = recHeaders st ! (length (recHeaders st) - 1)"
    by (rule last_conv_nth)
  then have lastpos: "0 \<le> sint (last (recHeaders st))"
    using nonneg [of "length (recHeaders st) - 1"] len by simp
  show "uint (last (recHeaders st)) = int (length f)" if "length f < 2 ^ 32"
    unfolding l using that by (rule sentinel_length)
  then show "sint (last (recHeaders st)) = int (length f)" if "length f < 2 ^ 32"
    using that sint_nonneg_uint [OF lastpos] by simp
  fix i assume i: "i < nat (sint (numRecords st))"
  show "0 \<le> sint (recHeaders st ! i)" using nonneg [of i] i len by simp
  show s: "sint (recHeaders st ! i) \<le> sint (recHeaders st ! (i + 1))"
    using mono i len by simp
  have "uint (recHeaders st ! i) \<le> uint (recHeaders st ! (i + 1))"
    using s nonneg [of i] nonneg [of "i + 1"] i len by (simp add: sint_nonneg_uint)
  then show "recHeaders st ! i \<le> recHeaders st ! (i + 1)" by (simp add: word_le_def)
next
  assume a: "sint (pdb_numRecords L f) < 1 \<or>
    (\<exists>i < nat (sint (pdb_numRecords L f)).
        sint (pdb_recHeaders L f ! (i + 1)) < sint (pdb_recHeaders L f ! i) \<or>
        pdb_recHeaders L f ! (i + 1) < pdb_recHeaders L f ! i)"
  let ?tbl = "pdb_recHeaders L f"
  show "\<exists>e. ParseHeader L f = Failed e"
  proof (cases "ParseHeader_pdb L f")
    case (Failed e)
    then show ?thesis by (simp add: ParseHeader_def)
  next
    case (Fault x)
    then show ?thesis using ParseHeader_pdb_no_Fault [of L f x] by simp
  next
    case (Ok st0)
    note inv = ParseHeader_pdb_Ok [OF Ok]
    have mono: "\<forall>i. i + 1 < length ?tbl \<longrightarrow> sint (?tbl ! i) \<le> sint (?tbl ! (i + 1))"
      using inv(3) by (simp add: offsets_valid_iff)
    from a inv(2) obtain i where i: "i < nat (sint (pdb_numRecords L f))"
      and v: "sint (?tbl ! (i + 1)) < sint (?tbl ! i) \<or> ?tbl ! (i + 1) < ?tbl ! i"
      by auto
    have s: "sint (?tbl ! i) \<le> sint (?tbl ! (i + 1))"
      using mono i by (simp add: pdb_recHeaders_length)
    with v have "?tbl ! (i + 1) < ?tbl ! i" by auto
    with s have "sint (?tbl ! i) < 0" by (rule signed_le_unsigned_less)
    moreover have "sint (?tbl ! 0) \<le> sint (?tbl ! i)"
      using mono_chain [OF mono, of i] i by (simp add: pdb_recHeaders_length)
    ultimately have "sint (?tbl ! 0) < 0" by simp
    then have "ParseHeader L f = Failed SeekFailed" by (rule ParseHeader_pdb_seek [OF Ok])
    then show ?thesis by blast
  qed
qed

theorem ParseHeader_envelope_witness:
  "length doc_short = 114 \<and>
   (case ParseHeader pdb_std doc_short of
      Ok st \<Rightarrow>
        sint (numRecords st) = 2 \<and> length (recHeaders st) = 3 \<and>
        sint (last (recHeaders st)) = 114 \<and>
        0 \<le> sint (recHeaders st ! 0) \<and>
        sint (recHeaders st ! 0) \<le> sint (recHeaders st ! 1) \<and>
        sint (recHeaders st ! 1) \<le> sint (recHeaders st ! 2)
    | Failed e \<Rightarrow> False
    | Fault x \<Rightarrow> False) \<and>
   sint (pdb_numRecords pdb_std pdb_no_records) = 0 \<and>
   (\<exists>e. ParseHeader pdb_std pdb_no_records = Failed e) \<and>
   pdb_recHeaders pdb_std (take 100 doc_short) = [94, 110, 100] \<and>
   (\<exists>e. ParseHeader pdb_std (take 100 doc_short) = Failed e)"
proof -
  have len: "length doc_short = 114" by code_simp
  have "case ParseHeader pdb_std doc_short of Ok st \<Rightarrow> True | Failed e \<Rightarrow> False | Fault x \<Rightarrow> False"
    by code_simp
  then obtain st where ok: "ParseHeader pdb_std doc_short = Ok st"
    by (auto split: result.splits)
  have two: "pdb_numRecords pdb_std doc_short = 2" by code_simp
  note env = ParseHeader_envelope [of pdb_std doc_short, THEN conjunct1, rule_format, OF ok]
  from env have e0: "numRecords st = pdb_numRecords pdb_std doc_short"
    and e1: "length (recHeaders st) = nat (sint (numRecords st)) + 1"
    and e2: "length doc_short < 2 ^ 32 \<longrightarrow>
             uint (last (recHeaders st)) = int (length doc_short) \<and>
             sint (last (recHeaders st)) = int (length doc_short)"
    and e3: "\<forall>i < nat (sint (numRecords st)).
               0 \<le> sint (recHeaders st ! i) \<and>
               sint (recHeaders st ! i) \<le> sint (recHeaders st ! (i + 1)) \<and>
               recHeaders st ! i \<le> recHeaders st ! (i + 1)"
    by blast+
  have n: "sint (numRecords st) = 2" using e0 two by simp
  have a: "length (recHeaders st) = 3" using e1 n by simp
  have b: "sint (last (recHeaders st)) = 114" using e2 len by simp
  have c: "0 \<le> sint (recHeaders st ! 0)" "sint (recHeaders st ! 0) \<le> sint (recHeaders st ! 1)"
    using e3 [rule_format, of 0] n by simp_all
  have d: "sint (recHeaders st ! 1) \<le> sint (recHeaders st ! 2)"
    using e3 [rule_format, of 1] n by (simp add: numeral_2_eq_2)
  have zero: "sint (pdb_numRecords pdb_std pdb_no_records) = 0" by code_simp
  have none: "\<exists>e. ParseHeader pdb_std pdb_no_records = Failed e"
    using ParseHeader_envelope [of pdb_std pdb_no_records] zero by simp
  have cnt: "nat (sint (pdb_numRecords pdb_std (take 100 doc_short))) = 2" by code_simp
  have tbl: "pdb_recHeaders pdb_std (take 100 doc_short) = [94, 110, 100]" by code_simp
  have "\<exists>i < nat (sint (pdb_numRecords pdb_std (take 100 doc_short))).
          sint (pdb_recHeaders pdb_std (take 100 doc_short) ! (i + 1))
            < sint (pdb_recHeaders pdb_std (take 100 doc_short) ! i) \<or>
          pdb_recHeaders pdb_std (take 100 doc_short) ! (i + 1)
            < pdb_recHeaders pdb_std (take 100 doc_short) ! i"
    unfolding cnt tbl by (intro exI [of _ 1]) simp
  then have cut: "\<exists>e. ParseHeader pdb_std (take 100 doc_short) = Failed e"
    using ParseHeader_envelope [of pdb_std "take 100 doc_short"] by blast
  show ?thesis using len ok n a b c d zero none tbl cut by simp
qed

section \<open>ReadRecord\<close>

lemma unat_diff_signed:
  fixes a b :: u32
  assumes "sint a \<le> sint b"
  shows "int (unat (b - a)) = sint b - sint a"
proof -
  have ra: "- (2 ^ 31) \<le> sint a" "sint a < 2 ^ 31"
    using sint_range_size [of a] by (simp_all add: word_size)
  have rb: "- (2 ^ 31) \<le> sint b" "sint b < 2 ^ 31"
    using sint_range_size [of b] by (simp_all add: word_size)
  have "b - a = word_of_int (sint b - sint a)" by simp
  then have "uint (b - a) = (sint b - sint a) mod 2 ^ 32"
    by (simp only: uint_word_of_int) simp
  also have "\<dots> = sint b - sint a"
    using assms ra rb by (intro mod_pos_pos_trivial) simp_all
  finally show ?thesis by simp
qed

lemma ReadRecord_Ok_length: "ReadRecord st recNo = Ok buf \<Longrightarrow> length buf < 2 ^ 32"
proof -
  assume "ReadRecord st recNo = Ok buf"
  then have "length buf = unat (GetRecordSize st recNo)"
    by (auto simp add: ReadRecord_def Let_def split: if_splits)
  then show ?thesis using unsigned_less [of "GetRecordSize st recNo"] by simp
qed

text \<open>
  Claim C4, amended. In an envelope (a table of one entry more than the record count,
  in which no offset exceeds its successor) and for a record index below the record
  count, \<^verbatim>\<open>ReadRecord\<close> reads the two entries inside the table, the record size is
  \<open>offset[index + 1] - offset[index]\<close>, and the call fails when \<open>offset[index]\<close> is negative,
  fails when fewer bytes than the record size are in the file from \<open>offset[index]\<close> on,
  and otherwise returns exactly that many bytes, the ones at \<open>offset[index]\<close>. The source
  does not compare the index with the record count.
\<close>

theorem ReadRecord_in_range:
  assumes tbl: "length (recHeaders st) = nat (sint (numRecords st)) + 1"
    and mono: "\<forall>i < nat (sint (numRecords st)).
                 sint (recHeaders st ! i) \<le> sint (recHeaders st ! (i + 1))"
    and r: "recNo < nat (sint (numRecords st))"
  shows "recNo + 1 < length (recHeaders st) \<and>
         int (unat (GetRecordSize st recNo)) =
           sint (recHeaders st ! (recNo + 1)) - sint (recHeaders st ! recNo) \<and>
         (sint (recHeaders st ! recNo) < 0 \<longrightarrow> ReadRecord st recNo = Failed SeekFailed) \<and>
         (0 \<le> sint (recHeaders st ! recNo) \<and>
          length (fileData st) - nat (sint (recHeaders st ! recNo)) < unat (GetRecordSize st recNo)
            \<longrightarrow> ReadRecord st recNo = Failed ShortRead) \<and>
         (0 \<le> sint (recHeaders st ! recNo) \<and>
          unat (GetRecordSize st recNo) \<le> length (fileData st) - nat (sint (recHeaders st ! recNo))
            \<longrightarrow> ReadRecord st recNo =
                  Ok (take (unat (GetRecordSize st recNo))
                        (drop (nat (sint (recHeaders st ! recNo))) (fileData st))) \<and>
                length (take (unat (GetRecordSize st recNo))
                        (drop (nat (sint (recHeaders st ! recNo))) (fileData st))) =
                  unat (GetRecordSize st recNo))"
proof -
  have inside: "recNo + 1 < length (recHeaders st)" using r tbl by simp
  have "sint (recHeaders st ! recNo) \<le> sint (recHeaders st ! (recNo + 1))"
    using mono r by blast
  then have size: "int (unat (GetRecordSize st recNo)) =
           sint (recHeaders st ! (recNo + 1)) - sint (recHeaders st ! recNo)"
    unfolding GetRecordSize_def by (rule unat_diff_signed)
  show ?thesis
    using inside size
    by (auto simp add: ReadRecord_def ReadFile_def Let_def)
qed

theorem ReadRecord_in_range_witness:
  "ParseHeader_pdb pdb_std doc_short = Ok doc_short_env \<and>
   GetRecordSize doc_short_env 1 = 4 \<and>
   ReadRecord doc_short_env 1 = Ok [0x61, 0x62, 0x63, 0x64] \<and>
   ReadRecord (doc_short_env\<lparr>fileData := take 112 doc_short\<rparr>) 1 = Failed ShortRead \<and>
   ReadRecord (doc_short_env\<lparr>recHeaders := [- 6, 110, 114]\<rparr>) 0 = Failed SeekFailed"
proof -
  let ?cut = "doc_short_env\<lparr>fileData := take 112 doc_short\<rparr>"
  let ?neg = "doc_short_env\<lparr>recHeaders := [- 6, 110, 114]\<rparr>"
  have tbl: "recHeaders doc_short_env = [94, 110, 114]" "numRecords doc_short_env = 2"
    "fileData doc_short_env = doc_short"
    by (simp_all add: doc_short_env_def MobiParse_new_def)
  have two: "\<And>P. (\<forall>i<2::nat. P i) \<longleftrightarrow> P 0 \<and> P 1"
    by (auto simp add: numeral_2_eq_2 less_Suc_eq)
  have size: "GetRecordSize doc_short_env 1 = 4" "GetRecordSize ?cut 1 = 4"
    "GetRecordSize ?neg 0 = 116"
    "GetRecordSize doc_short_env (Suc 0) = 4" "GetRecordSize ?cut (Suc 0) = 4"
    by (simp_all add: GetRecordSize_def tbl)
  have bytes: "take 4 (drop 110 doc_short) = [0x61, 0x62, 0x63, 0x64]"
    "length doc_short = 114"
    by code_simp+
  have a: "ReadRecord doc_short_env 1 = Ok [0x61, 0x62, 0x63, 0x64]"
    using ReadRecord_in_range [of doc_short_env 1] by (simp add: tbl two size bytes)
  have b: "ReadRecord ?cut 1 = Failed ShortRead"
    using ReadRecord_in_range [of ?cut 1] by (simp add: tbl two size bytes)
  have c: "ReadRecord ?neg 0 = Failed SeekFailed"
    using ReadRecord_in_range [of ?neg 0] by (simp add: tbl two size)
  show ?thesis using doc_short_parsed size(1) a b c by simp
qed

text \<open>
  The claim as the specification states it fails at the index 2 of a file of two
  records: \<^verbatim>\<open>ReadRecord\<close> does not fail, it reads \<^verbatim>\<open>recHeaders[3]\<close>, outside the table of
  three entries.
\<close>

theorem ReadRecord_index_unchecked:
  "ParseHeader_pdb pdb_std doc_short = Ok doc_short_env \<and>
   sint (numRecords doc_short_env) = 2 \<and>
   length (recHeaders doc_short_env) = 3 \<and>
   ReadRecord doc_short_env 2 = Fault TableOverread"
  using doc_short_parsed by (simp add: ReadRecord_def doc_short_env_def)

section \<open>ParseHeader: the document header\<close>

lemma finite_word_bits: "finite {k. bit (w :: 'a::len word) k}"
proof (rule finite_subset)
  show "{k. bit w k} \<subseteq> {..<LENGTH('a)}" by (auto dest: bit_imp_le_length)
qed simp

lemma upper_bits_step:
  fixes w :: "'a::len word"
  shows "{k. 0 < k \<and> bit w k} =
         (if bit w 1 then {1} else {}) \<union> Suc ` {k. 0 < k \<and> bit (drop_bit 1 w) k}"
proof (intro set_eqI iffI)
  fix k assume "k \<in> {k. 0 < k \<and> bit w k}"
  then have k: "0 < k" "bit w k" by simp_all
  show "k \<in> (if bit w 1 then {1} else {}) \<union> Suc ` {k. 0 < k \<and> bit (drop_bit 1 w) k}"
  proof (cases "k = 1")
    case True
    then show ?thesis using k by simp
  next
    case False
    then obtain j where j: "k = Suc j" "0 < j" using k(1) by (cases k) auto
    then have "bit (drop_bit 1 w) j" using k(2) by (simp add: bit_drop_bit_eq)
    then show ?thesis using j by auto
  qed
next
  fix k assume "k \<in> (if bit w 1 then {1} else {}) \<union> Suc ` {k. 0 < k \<and> bit (drop_bit 1 w) k}"
  then show "k \<in> {k. 0 < k \<and> bit w k}"
    by (auto simp add: bit_drop_bit_eq split: if_splits)
qed

lemma card_upper_bits_step:
  fixes w :: "'a::len word"
  shows "card {k. 0 < k \<and> bit w k} =
         (if bit w 1 then 1 else 0) + card {k. 0 < k \<and> bit (drop_bit 1 w) k}"
proof -
  let ?A = "{k. 0 < k \<and> bit (drop_bit 1 w) k}"
  have fin: "finite ?A" using finite_word_bits [of "drop_bit 1 w"] by (rule rev_finite_subset) auto
  have c: "card (Suc ` ?A) = card ?A" by (rule card_image) simp
  have d: "1 \<notin> Suc ` ?A" by auto
  show ?thesis
    unfolding upper_bits_step [of w] using fin c d by (simp add: card_insert_if)
qed

lemma upper_bits_le_1:
  fixes w :: "'a::len word"
  assumes "\<not> 1 < w"
  shows "{k. 0 < k \<and> bit w k} = {}"
proof -
  have "w = 0 \<or> w = 1" using assms by (metis linorder_neqE word_less_1)
  then show ?thesis by (auto simp add: bit_1_iff)
qed

text \<open>The loop over the flags adds the number of bits set at the positions 1 and above.\<close>

lemma count_trailers_eq:
  "count_trailers flags cnt = cnt + word_of_nat (card {k. 0 < k \<and> bit flags k})"
proof (induction flags cnt rule: count_trailers.induct)
  case (1 flags cnt)
  show ?case
  proof (cases "1 < flags")
    case True
    have b: "flags AND 2 \<noteq> 0 \<longleftrightarrow> bit flags 1"
      using bit_iff_and_push_bit_not_eq_0 [of flags 1] by simp
    have "count_trailers flags cnt =
          count_trailers (drop_bit 1 flags) (if flags AND 2 \<noteq> 0 then cnt + 1 else cnt)"
      using True by (subst count_trailers.simps) simp
    also have "\<dots> = (if flags AND 2 \<noteq> 0 then cnt + 1 else cnt) +
                    word_of_nat (card {k. 0 < k \<and> bit (drop_bit 1 flags) k})"
      using True by (rule "1.IH")
    also have "\<dots> = cnt + word_of_nat (card {k. 0 < k \<and> bit flags k})"
      by (simp add: card_upper_bits_step [of flags] b)
    finally show ?thesis .
  next
    case False
    then have "count_trailers flags cnt = cnt" by (subst count_trailers.simps) simp
    then show ?thesis by (simp only: upper_bits_le_1 [OF False]) simp
  qed
qed

lemma card_upper_bits_16: "card {k. 0 < k \<and> bit (flags :: u16) k} < 16"
proof -
  have "{k. 0 < k \<and> bit flags k} \<subseteq> {1..<16}" by (auto dest: bit_imp_le_length)
  then have "card {k. 0 < k \<and> bit flags k} \<le> card {1..<16::nat}" by (intro card_mono) simp_all
  then show ?thesis by simp
qed

lemma unat_count_trailers:
  "unat (count_trailers flags 0) = card {k. 0 < k \<and> bit flags k}"
proof -
  have "card {k. 0 < k \<and> bit flags k} < 2 ^ 32" using card_upper_bits_16 [of flags] by simp
  then show ?thesis by (simp add: count_trailers_eq unat_of_nat take_bit_nat_eq_self)
qed

lemma multibyte_bit: "(flags :: u16) AND 1 \<noteq> 0 \<longleftrightarrow> bit flags 0"
  by (simp add: and_one_eq bit_0 odd_iff_mod_2_eq_one)

lemma ParseHeader_cdic_Ok:
  "ParseHeader_cdic st h huffmanFirstRec huffmanRecCount i = Ok u \<Longrightarrow> \<not> i < unat huffmanRecCount"
  by (subst (asm) ParseHeader_cdic.simps)
     (auto simp add: AddCdicData_def split: if_splits result.splits)

lemma recLeft_0_iff:
  assumes "length buf < 2 ^ 32"
  shows "(word_of_nat (length buf) :: size_t) = 16 \<longleftrightarrow> length buf = 16"
proof -
  have "(word_of_nat (length buf) :: size_t) = 16 \<longleftrightarrow>
        (word_of_nat (length buf) :: size_t) = word_of_nat 16"
    by simp
  also have "\<dots> \<longleftrightarrow> length buf = 16"
    using assms by (simp only: word_of_nat_eq_iff) (simp add: take_bit_nat_eq_self)
  finally show ?thesis .
qed

lemma unat_recLeft:
  assumes "length buf < 2 ^ 32" "16 \<le> length buf"
  shows "unat ((word_of_nat (length buf) :: size_t) - 16) = length buf - 16"
proof -
  have "(word_of_nat (length buf) :: size_t) - 16 = word_of_nat (length buf - 16)"
    using assms(2) by (simp add: of_nat_diff)
  moreover have "length buf - 16 < 2 ^ 32" using assms(1) by simp
  ultimately show ?thesis by (simp add: unat_of_nat take_bit_nat_eq_self)
qed

text \<open>What a successful second part of \<^verbatim>\<open>ParseHeader\<close> says about record 0 and the state.\<close>

lemma ParseHeader_doc_Ok:
  assumes ok: "ParseHeader_doc st0 buf = Ok st" and len: "length buf < 2 ^ 32"
  shows "compressionType st = sint (be16 buf 0)"
    and "docRecCount st = scast (be16 buf 8)"
    and "docUncompressedSize st = be32 buf 4"
    and "doc st = doc st0"
    and "length buf = 16 \<or> 132 \<le> length buf \<and> unat (be32 buf 20) \<le> length buf - 16"
    and "if length buf \<noteq> 16 \<and> 228 \<le> be32 buf 20
         then multibyte st = (be16 buf 242 AND 1 \<noteq> 0) \<and>
              trailersCount st = count_trailers (be16 buf 242) (trailersCount st0)
         else multibyte st = multibyte st0 \<and> trailersCount st = trailersCount st0"
    and "compressionType st = COMPRESSION_HUFF \<Longrightarrow> length buf \<noteq> 16 \<Longrightarrow> unat (be32 buf 116) \<le> 1"
proof -
  show "compressionType st = sint (be16 buf 0)"
    using ok by (auto simp add: ParseHeader_doc_def Let_def split: if_splits result.splits)
  show "docRecCount st = scast (be16 buf 8)"
    using ok by (auto simp add: ParseHeader_doc_def Let_def split: if_splits result.splits)
  show "docUncompressedSize st = be32 buf 4"
    using ok by (auto simp add: ParseHeader_doc_def Let_def split: if_splits result.splits)
  show "doc st = doc st0"
    using ok by (auto simp add: ParseHeader_doc_def Let_def split: if_splits result.splits)
  have long: "length buf = 16 \<or> 132 \<le> length buf \<and> \<not> (word_of_nat (length buf) :: size_t) - 16 < be32 buf 20"
    using ok by (auto simp add: ParseHeader_doc_def Let_def recLeft_0_iff [OF len]
        split: if_splits result.splits)
  then show "length buf = 16 \<or> 132 \<le> length buf \<and> unat (be32 buf 20) \<le> length buf - 16"
    using unat_recLeft [OF len] by (auto simp add: word_less_nat_alt)
  show "if length buf \<noteq> 16 \<and> 228 \<le> be32 buf 20
         then multibyte st = (be16 buf 242 AND 1 \<noteq> 0) \<and>
              trailersCount st = count_trailers (be16 buf 242) (trailersCount st0)
         else multibyte st = multibyte st0 \<and> trailersCount st = trailersCount st0"
    using ok by (auto simp add: ParseHeader_doc_def Let_def recLeft_0_iff [OF len]
        split: if_splits result.splits)
  show "unat (be32 buf 116) \<le> 1" if "compressionType st = COMPRESSION_HUFF" "length buf \<noteq> 16"
    using ok that by (auto simp add: ParseHeader_doc_def Let_def recLeft_0_iff [OF len]
        split: if_splits result.splits dest!: ParseHeader_cdic_Ok)
qed

text \<open>
  Claim C8. The extra-data flags are decoded only when an extended header is present
  (record 0 is longer than the 16 bytes of the \<^verbatim>\<open>PalmDocHeader\<close>) and its declared length
  is at least 228: then the flags lie inside the record, \<open>multibyte\<close> is set exactly when
  bit 0 of the flags is set, and \<open>trailersCount\<close> is the number of bits set at the positions
  1 and above. Otherwise there are no trailers and \<open>multibyte\<close> is not set.
\<close>

theorem extraDataFlags_decoding:
  assumes pdb: "ParseHeader_pdb L f = Ok st0" and rec0: "ReadRecord st0 0 = Ok buf"
    and ok: "ParseHeader L f = Ok st"
  shows "if length buf \<noteq> 16 \<and> 228 \<le> be32 buf 20
         then 244 \<le> length buf \<and>
              (multibyte st \<longleftrightarrow> bit (be16 buf 242) 0) \<and>
              unat (trailersCount st) = card {k. 0 < k \<and> bit (be16 buf 242) k}
         else \<not> multibyte st \<and> trailersCount st = 0"
proof -
  have doc: "ParseHeader_doc st0 buf = Ok st"
    using ok pdb rec0 by (simp add: ParseHeader_def)
  have len: "length buf < 2 ^ 32" by (rule ReadRecord_Ok_length [OF rec0])
  note inv = ParseHeader_doc_Ok [OF doc len]
  note fresh = ParseHeader_pdb_fresh [OF pdb]
  show ?thesis
  proof (cases "length buf \<noteq> 16 \<and> 228 \<le> be32 buf 20")
    case True
    then have "228 \<le> unat (be32 buf 20)" by (simp add: word_le_nat_alt)
    then have "244 \<le> length buf" using inv(5) True by auto
    moreover have "multibyte st \<longleftrightarrow> bit (be16 buf 242) 0"
      using inv(6) True by (simp add: multibyte_bit)
    moreover have "unat (trailersCount st) = card {k. 0 < k \<and> bit (be16 buf 242) k}"
      using inv(6) True by (simp add: fresh unat_count_trailers)
    ultimately show ?thesis using True by simp
  next
    case False
    then show ?thesis using inv(6) fresh by auto
  qed
qed

theorem extraDataFlags_decoding_witness:
  "(case ParseHeader pdb_std mobi_flags of
      Ok st \<Rightarrow> multibyte st \<and> trailersCount st = 2 \<and>
               unat (trailersCount st) = card {k. 0 < k \<and> bit (7 :: u16) k}
    | Failed e \<Rightarrow> False
    | Fault x \<Rightarrow> False)"
proof -
  define buf where "buf = drop 86 mobi_flags"
  have "case ParseHeader_pdb pdb_std mobi_flags of
          Ok st0 \<Rightarrow> ReadRecord st0 0 = Ok (drop 86 mobi_flags)
        | Failed e \<Rightarrow> False
        | Fault x \<Rightarrow> False"
    by code_simp
  then obtain st0 where pdb: "ParseHeader_pdb pdb_std mobi_flags = Ok st0"
    and rec0: "ReadRecord st0 0 = Ok buf"
    unfolding buf_def by (auto split: result.splits)
  have "case ParseHeader pdb_std mobi_flags of
          Ok st \<Rightarrow> trailersCount st = 2
        | Failed e \<Rightarrow> False
        | Fault x \<Rightarrow> False"
    by code_simp
  then obtain st where ok: "ParseHeader pdb_std mobi_flags = Ok st" and two: "trailersCount st = 2"
    by (auto split: result.splits)
  have fields: "length buf = 244" "be32 buf 20 = 228" "be16 buf 242 = 7"
    unfolding buf_def by code_simp+
  have "if length buf \<noteq> 16 \<and> 228 \<le> be32 buf 20
         then 244 \<le> length buf \<and>
              (multibyte st \<longleftrightarrow> bit (be16 buf 242) 0) \<and>
              unat (trailersCount st) = card {k. 0 < k \<and> bit (be16 buf 242) k}
         else \<not> multibyte st \<and> trailersCount st = 0"
    by (rule extraDataFlags_decoding [OF pdb rec0 ok])
  then have "multibyte st \<and> unat (trailersCount st) = card {k. 0 < k \<and> bit (7 :: u16) k}"
    unfolding fields by simp
  then show ?thesis using ok two by simp
qed

text \<open>
  Claim C9. For a MOBI file whose record 0 holds the encryption field, a non-zero
  \<^verbatim>\<open>mobi.encrType\<close> makes \<^verbatim>\<open>ParseHeader\<close> fail at the check "encryption is unsupported"
  whichever of the three compression types record 0 declares and whatever the rest of
  the file is, and \<^verbatim>\<open>ParseFile\<close> fails with it before any record is loaded. With any
  other value in the compression field the file is rejected as well: neither function
  succeeds.
\<close>

theorem encrypted_rejected:
  assumes pdb: "ParseHeader_pdb L f = Ok st0" and mobi: "isMobi st0"
    and rec0: "ReadRecord st0 0 = Ok buf" and len: "14 \<le> length buf"
    and enc: "le16 buf 12 \<noteq> ENCRYPTION_NONE"
  shows "(IsValidCompression (sint (be16 buf 0)) \<longrightarrow>
            ParseHeader L f = Failed EncryptionUnsupported \<and>
            ParseFile L f = Failed EncryptionUnsupported) \<and>
         (\<forall>st. ParseHeader L f \<noteq> Ok st) \<and>
         (\<forall>st. ParseFile L f \<noteq> Ok st)"
proof -
  have h: "ParseHeader L f = ParseHeader_doc st0 buf"
    using pdb rec0 by (simp add: ParseHeader_def)
  have d: "ParseHeader_doc st0 buf =
           (if IsValidCompression (sint (be16 buf 0)) then Failed EncryptionUnsupported
            else Failed UnknownCompression)"
    using mobi len enc by (simp add: ParseHeader_doc_def Let_def)
  show ?thesis
    by (simp add: ParseFile_def h d)
qed

theorem encrypted_rejected_witness:
  "le16 (drop 86 mobi_encrypted) 12 = 0x0100 \<and>
   ParseHeader pdb_std mobi_encrypted = Failed EncryptionUnsupported \<and>
   ParseFile pdb_std mobi_encrypted = Failed EncryptionUnsupported"
proof -
  define buf where "buf = drop 86 mobi_encrypted"
  have "case ParseHeader_pdb pdb_std mobi_encrypted of
          Ok st0 \<Rightarrow> isMobi st0 \<and> ReadRecord st0 0 = Ok (drop 86 mobi_encrypted)
        | Failed e \<Rightarrow> False
        | Fault x \<Rightarrow> False"
    by code_simp
  then obtain st0 where pdb: "ParseHeader_pdb pdb_std mobi_encrypted = Ok st0"
    and mobi: "isMobi st0" and rec0: "ReadRecord st0 0 = Ok buf"
    unfolding buf_def by (auto split: result.splits)
  have fields: "14 \<le> length buf" "IsValidCompression (sint (be16 buf 0))"
    "le16 buf 12 = 0x0100"
    unfolding buf_def by code_simp+
  have enc: "le16 buf 12 \<noteq> ENCRYPTION_NONE" by (simp add: fields(3))
  have "ParseHeader pdb_std mobi_encrypted = Failed EncryptionUnsupported \<and>
        ParseFile pdb_std mobi_encrypted = Failed EncryptionUnsupported"
    using encrypted_rejected [OF pdb mobi rec0 fields(1) enc] fields(2) by blast
  then show ?thesis using fields(3) unfolding buf_def by simp
qed

lemma LoadDocRecordIntoBuffer_HUFF:
  "compressionType st = COMPRESSION_HUFF \<Longrightarrow> LoadDocRecordIntoBuffer st recNo d \<noteq> Ok d'"
  by (auto simp add: LoadDocRecordIntoBuffer_def Let_def split: result.splits)

lemma LoadDocument_HUFF:
  assumes "LoadDocument st = Ok st'" and "compressionType st = COMPRESSION_HUFF"
  shows "docRecCount st = 0 \<and> st' = st"
proof -
  obtain d where d: "LoadDocument_loop st 1 (doc st) = Ok d" and st': "st' = st\<lparr>doc := d\<rparr>"
    using assms(1) by (auto simp add: LoadDocument_def split: result.splits)
  have "\<not> 1 \<le> unat (docRecCount st) \<and> d = doc st"
    using d LoadDocRecordIntoBuffer_HUFF [OF assms(2)]
    by (subst (asm) LoadDocument_loop.simps) (auto split: if_splits result.splits)
  then have "unat (docRecCount st) = 0" and "d = doc st" by simp_all
  then show ?thesis using st' by (simp add: unat_0_iff)
qed

text \<open>
  Claim C10. A document that declares Huffman compression is never decoded. When record 0
  has an extended header that declares more than one dictionary record,
  \<^verbatim>\<open>ParseHeader\<close> does not succeed (\<^verbatim>\<open>AddCdicData\<close> rejects every record). Under Huffman
  compression \<^verbatim>\<open>LoadDocRecordIntoBuffer\<close> succeeds for no record. And when \<^verbatim>\<open>ParseFile\<close>
  succeeds on such a document, the document has no text record and the result is empty.
\<close>

theorem HuffmanDict_never_decoded:
  "(ParseHeader_pdb L f = Ok st0 \<and> ReadRecord st0 0 = Ok buf \<and>
    sint (be16 buf 0) = COMPRESSION_HUFF \<and> length buf \<noteq> 16 \<and> 1 < unat (be32 buf 116)
      \<longrightarrow> (\<forall>st. ParseHeader L f \<noteq> Ok st)) \<and>
   (compressionType st = COMPRESSION_HUFF
      \<longrightarrow> (\<forall>recNo d d'. LoadDocRecordIntoBuffer st recNo d \<noteq> Ok d')) \<and>
   (ParseFile L f = Ok st' \<and> compressionType st' = COMPRESSION_HUFF
      \<longrightarrow> docRecCount st' = 0 \<and> doc st' = [])"
proof (intro conjI impI allI)
  fix st1
  assume a: "ParseHeader_pdb L f = Ok st0 \<and> ReadRecord st0 0 = Ok buf \<and>
    sint (be16 buf 0) = COMPRESSION_HUFF \<and> length buf \<noteq> 16 \<and> 1 < unat (be32 buf 116)"
  show "ParseHeader L f \<noteq> Ok st1"
  proof
    assume ok: "ParseHeader L f = Ok st1"
    then have doc: "ParseHeader_doc st0 buf = Ok st1" using a by (simp add: ParseHeader_def)
    have len: "length buf < 2 ^ 32" by (rule ReadRecord_Ok_length [of st0 0]) (simp add: a)
    note inv = ParseHeader_doc_Ok [OF doc len]
    have "unat (be32 buf 116) \<le> 1" using inv(1) a by (intro inv(7)) simp_all
    then show False using a by simp
  qed
next
  fix recNo d d'
  assume "compressionType st = COMPRESSION_HUFF"
  then show "LoadDocRecordIntoBuffer st recNo d \<noteq> Ok d'" by (rule LoadDocRecordIntoBuffer_HUFF)
next
  assume a: "ParseFile L f = Ok st' \<and> compressionType st' = COMPRESSION_HUFF"
  then obtain st1 where h: "ParseHeader L f = Ok st1" and l: "LoadDocument st1 = Ok st'"
    by (auto simp add: ParseFile_def split: result.splits)
  have c: "compressionType st1 = compressionType st'"
    using l by (auto simp add: LoadDocument_def split: result.splits)
  have e: "docRecCount st1 = 0 \<and> st' = st1" using l c a by (intro LoadDocument_HUFF) simp_all
  obtain st0 buf where p: "ParseHeader_pdb L f = Ok st0" "ReadRecord st0 0 = Ok buf"
    "ParseHeader_doc st0 buf = Ok st1" using h by (rule ParseHeader_Ok)
  have "doc st1 = []"
    using ParseHeader_doc_Ok(4) [OF p(3) ReadRecord_Ok_length [OF p(2)]] ParseHeader_pdb_fresh(1) [OF p(1)]
    by simp
  then show "docRecCount st' = 0" and "doc st' = []" using e by simp_all
qed

theorem HuffmanDict_never_decoded_witness:
  "ParseHeader pdb_std huff_two_dicts = Failed CdicRejected \<and>
   (\<forall>st. ParseHeader pdb_std huff_two_dicts \<noteq> Ok st) \<and>
   (case ParseFile pdb_std huff_one_dict of
      Ok st' \<Rightarrow> compressionType st' = COMPRESSION_HUFF \<and> docRecCount st' = 0 \<and> doc st' = [] \<and>
                (\<forall>recNo d d'. LoadDocRecordIntoBuffer st' recNo d \<noteq> Ok d')
    | Failed e \<Rightarrow> False
    | Fault x \<Rightarrow> False)"
proof -
  let ?buf = "take 132 (drop 102 huff_two_dicts)"
  have "case ParseHeader_pdb pdb_std huff_two_dicts of
          Ok st0 \<Rightarrow> ReadRecord st0 0 = Ok ?buf
        | Failed e \<Rightarrow> False
        | Fault x \<Rightarrow> False"
    by code_simp
  then obtain st0 where pdb: "ParseHeader_pdb pdb_std huff_two_dicts = Ok st0"
    and rec0: "ReadRecord st0 0 = Ok ?buf"
    by (auto split: result.splits)
  have fields: "sint (be16 ?buf 0) = COMPRESSION_HUFF" "length ?buf \<noteq> 16" "1 < unat (be32 ?buf 116)"
    by code_simp+
  have two: "\<forall>st. ParseHeader pdb_std huff_two_dicts \<noteq> Ok st"
    using HuffmanDict_never_decoded [of pdb_std huff_two_dicts st0 ?buf] pdb rec0 fields
    by blast
  have rejected: "ParseHeader pdb_std huff_two_dicts = Failed CdicRejected"
    by code_simp
  have "case ParseFile pdb_std huff_one_dict of
          Ok st' \<Rightarrow> compressionType st' = COMPRESSION_HUFF
        | Failed e \<Rightarrow> False
        | Fault x \<Rightarrow> False"
    by code_simp
  then obtain st' where ok: "ParseFile pdb_std huff_one_dict = Ok st'"
    and huff: "compressionType st' = COMPRESSION_HUFF"
    by (auto split: result.splits)
  have "docRecCount st' = 0 \<and> doc st' = []"
    using HuffmanDict_never_decoded [of pdb_std huff_one_dict _ _ _ st'] ok huff by blast
  moreover have "\<forall>recNo d d'. LoadDocRecordIntoBuffer st' recNo d \<noteq> Ok d'"
    using HuffmanDict_never_decoded [of _ _ _ _ st'] huff by blast
  ultimately show ?thesis using two rejected ok huff by simp
qed

end
